theory Spec2Isabelle
  imports Complex_Main
begin

section \<open>JavaScript values used by App.jsx\<close>

text \<open>
  The development embeds the data-correlation logic of \<^verbatim>\<open>src/App.jsx\<close>: the classifier
  \<^verbatim>\<open>getColorForValue\<close>, the two upload handlers \<^verbatim>\<open>handleKmlUpload\<close> and
  \<^verbatim>\<open>handleCsvUpload\<close>, the values derived on every render (\<^verbatim>\<open>csvIdMap\<close>,
  \<^verbatim>\<open>metricValues\<close>, \<^verbatim>\<open>metricMin\<close>, \<^verbatim>\<open>metricMax\<close>) and the \<^verbatim>\<open>style\<close>
  callback handed to the map layer.

  Numbers. A JavaScript number is an IEEE double. A finite number is modelled by the
  rational it denotes, next to the three special values. Every arithmetic result passes
  through \<open>fl\<close>, the rounding of an exact result to the nearest double, a tie going
  to the even significand: the result is a multiple of the spacing \<open>2^grid / 2^1074\<close>
  of the doubles around it (53 significant bits, the spacing of the subnormal numbers
  at the bottom), and a result that rounds to \<open>2^1024\<close> or beyond is an infinity.
  The negative zero is identified with zero; the two differ only under a division by
  zero, which \<^verbatim>\<open>getColorForValue\<close> never performs on doubles.
\<close>

datatype jsnum = Fin rat | PosInf | NegInf | NaN

text \<open>The position of the highest bit of a positive integer.\<close>

function log2i :: "int \<Rightarrow> nat" where
  "log2i n = (if n < 2 then 0 else Suc (log2i (n div 2)))"
  by pat_completeness auto
termination
  by (relation "measure nat") auto

declare log2i.simps [simp del]

text \<open>The nearest integer, a tie going to the even one.\<close>

definition rne :: "rat \<Rightarrow> int" where
  "rne x =
     (let f = \<lfloor>x\<rfloor>; d = x - of_int f
      in if d < 1 / 2 then f else if 1 / 2 < d then f + 1 else if even f then f else f + 1)"

text \<open>
  The doubles around \<open>q\<close> are the multiples of \<open>2^grid q / 2^1074\<close>: below
  \<open>2^-1021\<close> the spacing is \<open>2^-1074\<close>, and it doubles with every binade.
\<close>

definition grid :: "rat \<Rightarrow> nat" where
  "grid q = (let n = \<lfloor>\<bar>q\<bar> * 2 ^ 1074\<rfloor> in if n < 2 ^ 53 then 0 else log2i n - 52)"

definition fl :: "rat \<Rightarrow> jsnum" where
  "fl q =
     (let u = 2 ^ grid q / 2 ^ 1074;
          r = of_int (rne (q / u)) * u
      in if 2 ^ 1024 \<le> \<bar>r\<bar> then (if 0 < q then PosInf else NegInf) else Fin r)"

text \<open>The least magnitude that rounds to an infinity, and the rationals that are doubles.\<close>

definition dbl_limit :: rat where
  "dbl_limit = 2 ^ 1024 - 2 ^ 970"

definition is_double :: "rat \<Rightarrow> bool" where
  "is_double q = (fl q = Fin q)"

fun js_neg :: "jsnum \<Rightarrow> jsnum" where
  "js_neg (Fin a) = Fin (- a)"
| "js_neg PosInf = NegInf"
| "js_neg NegInf = PosInf"
| "js_neg NaN = NaN"

text \<open>The sign of a number that is not NaN: -1, 0 or 1.\<close>

fun js_sign :: "jsnum \<Rightarrow> int" where
  "js_sign (Fin a) = (if a < 0 then - 1 else if a = 0 then 0 else 1)"
| "js_sign PosInf = 1"
| "js_sign NegInf = - 1"
| "js_sign NaN = 0"

definition inf_of_sign :: "int \<Rightarrow> jsnum" where
  "inf_of_sign s = (if s = 0 then NaN else if 0 < s then PosInf else NegInf)"

fun js_add :: "jsnum \<Rightarrow> jsnum \<Rightarrow> jsnum" where
  "js_add (Fin a) (Fin b) = fl (a + b)"
| "js_add NaN y = NaN"
| "js_add x NaN = NaN"
| "js_add PosInf NegInf = NaN"
| "js_add NegInf PosInf = NaN"
| "js_add PosInf y = PosInf"
| "js_add NegInf y = NegInf"
| "js_add (Fin a) y = y"

definition js_sub :: "jsnum \<Rightarrow> jsnum \<Rightarrow> jsnum" where
  "js_sub x y = js_add x (js_neg y)"

fun js_mul :: "jsnum \<Rightarrow> jsnum \<Rightarrow> jsnum" where
  "js_mul (Fin a) (Fin b) = fl (a * b)"
| "js_mul NaN y = NaN"
| "js_mul x NaN = NaN"
| "js_mul x y = inf_of_sign (js_sign x * js_sign y)"

text \<open>
  Division. A finite number over an infinity is zero, an infinity over an infinity is
  NaN, and a division by zero gives NaN for \<open>0 / 0\<close> and an infinity otherwise (of the
  sign of the dividend, the divisor being read as the positive zero).
\<close>

fun js_div :: "jsnum \<Rightarrow> jsnum \<Rightarrow> jsnum" where
  "js_div (Fin a) (Fin b) = (if b = 0 then inf_of_sign (js_sign (Fin a)) else fl (a / b))"
| "js_div NaN y = NaN"
| "js_div x NaN = NaN"
| "js_div (Fin a) y = Fin 0"
| "js_div x (Fin b) = inf_of_sign (js_sign x * (if b < 0 then - 1 else 1))"
| "js_div x y = NaN"

text \<open>\<^verbatim>\<open>Math.round\<close>: the nearest integer, a tie going up.\<close>

fun Math_round :: "jsnum \<Rightarrow> jsnum" where
  "Math_round (Fin a) = Fin (of_int \<lfloor>a + 1 / 2\<rfloor>)"
| "Math_round x = x"

fun js_min2 :: "jsnum \<Rightarrow> jsnum \<Rightarrow> jsnum" where
  "js_min2 (Fin a) (Fin b) = Fin (min a b)"
| "js_min2 NaN y = NaN"
| "js_min2 x NaN = NaN"
| "js_min2 NegInf y = NegInf"
| "js_min2 x NegInf = NegInf"
| "js_min2 PosInf y = y"
| "js_min2 x PosInf = x"

fun js_max2 :: "jsnum \<Rightarrow> jsnum \<Rightarrow> jsnum" where
  "js_max2 (Fin a) (Fin b) = Fin (max a b)"
| "js_max2 NaN y = NaN"
| "js_max2 x NaN = NaN"
| "js_max2 PosInf y = PosInf"
| "js_max2 x PosInf = PosInf"
| "js_max2 NegInf y = y"
| "js_max2 x NegInf = x"

text \<open>
  \<^verbatim>\<open>Math.min(...xs)\<close> and \<^verbatim>\<open>Math.max(...xs)\<close>: with no argument they are
  \<^verbatim>\<open>Infinity\<close> and \<^verbatim>\<open>-Infinity\<close>.
\<close>

definition Math_min :: "jsnum list \<Rightarrow> jsnum" where
  "Math_min xs = foldl js_min2 PosInf xs"

definition Math_max :: "jsnum list \<Rightarrow> jsnum" where
  "Math_max xs = foldl js_max2 NegInf xs"

text \<open>
  Values. The property bag of a feature and the cells of a record hold primitives.
  A string is a list of code units below 256.
\<close>

datatype jsval = Undefined | Null | Bool bool | Num jsnum | Str string

text \<open>What \<^verbatim>\<open>if (v)\<close>, \<^verbatim>\<open>!v\<close> and \<^verbatim>\<open>v || w\<close> test.\<close>

fun truthy :: "jsval \<Rightarrow> bool" where
  "truthy Undefined = False"
| "truthy Null = False"
| "truthy (Bool b) = b"
| "truthy (Num n) = (n \<noteq> NaN \<and> n \<noteq> Fin 0)"
| "truthy (Str s) = (s \<noteq> [])"

definition js_or :: "jsval \<Rightarrow> jsval \<Rightarrow> jsval" where
  "js_or a b = (if truthy a then a else b)"

section \<open>Strings: trim, split, indexOf, Number\<close>

text \<open>
  \<^verbatim>\<open>String.prototype.trim\<close> removes white space and line terminators at both ends:
  TAB, LF, VT, FF, CR, SP and NBSP among the code units below 256.
\<close>

definition isWhite :: "char \<Rightarrow> bool" where
  "isWhite c = (of_char c \<in> {9, 10, 11, 12, 13, 32, 160 :: nat})"

definition trim :: "string \<Rightarrow> string" where
  "trim s = rev (dropWhile isWhite (rev (dropWhile isWhite s)))"

text \<open>\<^verbatim>\<open>s.split(',')\<close>: the pieces between the separators, at least one piece.\<close>

fun consHead :: "char \<Rightarrow> string list \<Rightarrow> string list" where
  "consHead c [] = [[c]]"
| "consHead c (w # ws) = (c # w) # ws"

fun split_on :: "char \<Rightarrow> string \<Rightarrow> string list" where
  "split_on d [] = [[]]"
| "split_on d (c # cs) = (if c = d then [] # split_on d cs else consHead c (split_on d cs))"

text \<open>
  \<^verbatim>\<open>s.split(/\r?\n/)\<close>: a line ends at LF or at CR LF; a CR that no LF follows
  stays in its line.
\<close>

definition LF :: char where "LF = CHR 0x0A"
definition CR :: char where "CR = CHR 0x0D"

fun split_lines :: "string \<Rightarrow> string list" where
  "split_lines [] = [[]]"
| "split_lines [c] = (if c = LF then [[], []] else [[c]])"
| "split_lines (c # d # cs) =
     (if c = LF then [] # split_lines (d # cs)
      else if c = CR \<and> d = LF then [] # split_lines cs
      else consHead c (split_lines (d # cs)))"

text \<open>\<^verbatim>\<open>xs.indexOf(x)\<close>: the first position of \<open>x\<close>, or -1.\<close>

fun indexOf :: "'a list \<Rightarrow> 'a \<Rightarrow> int" where
  "indexOf [] x = - 1"
| "indexOf (y # ys) x =
     (if y = x then 0 else (let i = indexOf ys x in if i = - 1 then - 1 else i + 1))"

text \<open>\<^verbatim>\<open>xs[i]\<close> for an index that \<^verbatim>\<open>indexOf\<close> returned: undefined out of range.\<close>

definition at_index :: "string list \<Rightarrow> int \<Rightarrow> jsval" where
  "at_index xs i = (if 0 \<le> i \<and> nat i < length xs then Str (xs ! nat i) else Undefined)"

text \<open>
  \<^verbatim>\<open>Number(s)\<close> on a string: white space is trimmed, the empty string is 0, then
  the string is a numeric literal (binary, octal, hexadecimal without sign; decimal with
  an optional sign, fraction and exponent; \<^verbatim>\<open>Infinity\<close>) or the result is NaN.
  The value of a literal is rounded to the nearest double.
\<close>

definition isDigit :: "char \<Rightarrow> bool" where
  "isDigit c = (48 \<le> (of_char c :: nat) \<and> (of_char c :: nat) \<le> 57)"

definition hexVal :: "char \<Rightarrow> nat option" where
  "hexVal c = (let n = (of_char c :: nat) in
     if 48 \<le> n \<and> n \<le> 57 then Some (n - 48)
     else if 97 \<le> n \<and> n \<le> 102 then Some (n - 87)
     else if 65 \<le> n \<and> n \<le> 70 then Some (n - 55)
     else None)"

text \<open>The value of a non-empty digit string in a base, None when a digit is not of the base.\<close>

fun digits_in :: "nat \<Rightarrow> nat \<Rightarrow> string \<Rightarrow> nat option" where
  "digits_in b acc [] = Some acc"
| "digits_in b acc (c # cs) =
     (case hexVal c of
        None \<Rightarrow> None
      | Some v \<Rightarrow> if v < b then digits_in b (b * acc + v) cs else None)"

definition radix_literal :: "nat \<Rightarrow> string \<Rightarrow> jsnum" where
  "radix_literal b ds =
     (if ds = [] then NaN
      else case digits_in b 0 ds of None \<Rightarrow> NaN | Some n \<Rightarrow> fl (of_nat n))"

text \<open>The exponent part: nothing, or \<^verbatim>\<open>e\<close>, an optional sign and at least one digit.\<close>

definition exponent_part :: "string \<Rightarrow> int option" where
  "exponent_part r =
     (case r of
        [] \<Rightarrow> Some 0
      | c # r1 \<Rightarrow>
          if c = CHR ''e'' \<or> c = CHR ''E'' then
            (let neg = (r1 \<noteq> [] \<and> hd r1 = CHR ''-'');
                 ds = (if r1 \<noteq> [] \<and> (hd r1 = CHR ''-'' \<or> hd r1 = CHR ''+'') then tl r1 else r1)
             in if ds = [] \<or> \<not> list_all isDigit ds then None
                else case digits_in 10 0 ds of
                       None \<Rightarrow> None
                     | Some n \<Rightarrow> Some (if neg then - int n else int n))
          else None)"

definition scale10 :: "nat \<Rightarrow> int \<Rightarrow> rat" where
  "scale10 m e = (if 0 \<le> e then of_nat m * 10 ^ nat e else of_nat m / 10 ^ nat (- e))"

definition unsigned_decimal :: "string \<Rightarrow> jsnum" where
  "unsigned_decimal s =
     (if s = ''Infinity'' then PosInf
      else
        let ip = takeWhile isDigit s;
            r1 = dropWhile isDigit s;
            dot = (r1 \<noteq> [] \<and> hd r1 = CHR ''.'');
            fp = (if dot then takeWhile isDigit (tl r1) else []);
            r2 = (if dot then dropWhile isDigit (tl r1) else r1)
        in if ip = [] \<and> fp = [] then NaN
           else case (digits_in 10 0 (ip @ fp), exponent_part r2) of
                  (Some m, Some e) \<Rightarrow> fl (scale10 m (e - int (length fp)))
                | _ \<Rightarrow> NaN)"

definition Number_of_string :: "string \<Rightarrow> jsnum" where
  "Number_of_string s0 =
     (let s = trim s0 in
      if s = [] then Fin 0
      else if take 2 s = ''0x'' \<or> take 2 s = ''0X'' then radix_literal 16 (drop 2 s)
      else if take 2 s = ''0o'' \<or> take 2 s = ''0O'' then radix_literal 8 (drop 2 s)
      else if take 2 s = ''0b'' \<or> take 2 s = ''0B'' then radix_literal 2 (drop 2 s)
      else if hd s = CHR ''-'' then js_neg (unsigned_decimal (tl s))
      else if hd s = CHR ''+'' then unsigned_decimal (tl s)
      else unsigned_decimal s)"

text \<open>\<^verbatim>\<open>Number(v)\<close>, also the coercion of the operands of \<^verbatim>\<open>-\<close>.\<close>

fun Number :: "jsval \<Rightarrow> jsnum" where
  "Number Undefined = NaN"
| "Number Null = Fin 0"
| "Number (Bool b) = (if b then Fin 1 else Fin 0)"
| "Number (Num n) = n"
| "Number (Str s) = Number_of_string s"

text \<open>\<^verbatim>\<open>Number.isFinite(v)\<close>: \<open>v\<close> is a number, and a finite one; nothing is coerced.\<close>

fun Number_isFinite :: "jsval \<Rightarrow> bool" where
  "Number_isFinite (Num (Fin a)) = True"
| "Number_isFinite v = False"

section \<open>The classifier\<close>

text \<open>
  A colour is a string. \<open>Rgb r g b\<close> stands for the string that the template literal
  \<^verbatim>\<open>`rgb(${r}, ${g}, ${b})`\<close> builds from three numbers; \<open>Given v\<close> is a value used
  as it is (a string literal of the source, or a property of the feature).
\<close>

datatype css_color = Given jsval | Rgb jsnum jsnum jsnum

text \<open>
  \<^verbatim>\<open>getColorForValue(value, min, max)\<close>, lines 14 to 34. Past the guard the three
  arguments are finite numbers; \<^verbatim>\<open>min === max\<close> is then the equality of the two.
\<close>

definition getColorForValue :: "jsval \<Rightarrow> jsval \<Rightarrow> jsval \<Rightarrow> css_color" where
  "getColorForValue val mn mx =
     (if \<not> Number_isFinite val \<or> \<not> Number_isFinite mn \<or> \<not> Number_isFinite mx \<or> mn = mx
      then Given (Str ''#7c3aed'')
      else
        let t = js_div (js_sub (Number val) (Number mn)) (js_sub (Number mx) (Number mn));
            r = Math_round (js_add (Fin 237) (js_mul (js_sub (Fin 88) (Fin 237)) t));
            g = Math_round (js_add (Fin 233) (js_mul (js_sub (Fin 28) (Fin 233)) t));
            b = Math_round (js_add (Fin 254) (js_mul (js_sub (Fin 135) (Fin 254)) t))
        in Rgb r g b)"

section \<open>The application state and the tabular parser\<close>

record csv_row =
  row_id :: jsval
  revenue :: jsnum
  cost :: jsnum

datatype metric = Revenue | Cost

text \<open>\<^verbatim>\<open>row[selectedMetric]\<close>, the selection being one of the two options of the Select.\<close>

fun row_metric :: "metric \<Rightarrow> csv_row \<Rightarrow> jsnum" where
  "row_metric Revenue row = revenue row"
| "row_metric Cost row = cost row"

text \<open>
  A feature of the collection that \<^verbatim>\<open>toGeoJSON.kml\<close> returns: the top-level
  \<^verbatim>\<open>id\<close> (undefined when absent) and the property bag, which may be missing. The
  geometry is neither read nor written by the code embedded here.
\<close>

record feature =
  fid :: jsval
  properties :: "(string \<rightharpoonup> jsval) option"

record app_state =
  kmlData :: "feature list option"
  csvRows :: "csv_row list"
  selectedMetric :: metric

text \<open>What a handler shows to the user: \<^verbatim>\<open>message.success\<close>, \<^verbatim>\<open>.warning\<close>, \<^verbatim>\<open>.error\<close>.\<close>

datatype notice = Msg_success string | Msg_warning string | Msg_error string

text \<open>The row built from one data line, lines 283 to 290.\<close>

definition parse_row :: "int \<Rightarrow> int \<Rightarrow> int \<Rightarrow> string \<Rightarrow> csv_row" where
  "parse_row idIndex revenueIndex costIndex line =
     (let cols = map trim (split_on CHR '','' line)
      in \<lparr>row_id = at_index cols idIndex,
          revenue = Number (at_index cols revenueIndex),
          cost = Number (at_index cols costIndex)\<rparr>)"

text \<open>
  \<^verbatim>\<open>handleCsvUpload\<close>, the body of \<^verbatim>\<open>reader.onload\<close>, lines 266 to 297, on the text
  of the file. Nothing in it throws, so the \<^verbatim>\<open>catch\<close> is never entered.
\<close>

definition handleCsvUpload :: "string \<Rightarrow> app_state \<Rightarrow> notice \<times> app_state" where
  "handleCsvUpload csvText st =
     (let lines = split_lines (trim csvText) in
      if length lines < 2 then (Msg_warning ''CSV file appears to be empty'', st)
      else
        let header = map trim (split_on CHR '','' (hd lines));
            idIndex = indexOf header ''id'';
            revenueIndex = indexOf header ''revenue'';
            costIndex = indexOf header ''cost''
        in if idIndex = - 1 \<or> revenueIndex = - 1 \<or> costIndex = - 1
           then (Msg_error ''CSV must contain id, revenue and cost columns'', st)
           else
             let rows = map (parse_row idIndex revenueIndex costIndex) (tl lines)
             in (Msg_success ''CSV file loaded successfully'',
                 st\<lparr>csvRows := rows, selectedMetric := Revenue\<rparr>))"

section \<open>The geo document: identifiers of the features\<close>

text \<open>
  A \<^verbatim>\<open>Placemark\<close> element as the handler reads it: \<^verbatim>\<open>getAttribute('id')\<close> (null when
  there is no attribute) and the text of its first \<^verbatim>\<open>name\<close> element, if any. The
  elements come in document order from \<^verbatim>\<open>querySelectorAll\<close>; the features come from
  \<^verbatim>\<open>toGeoJSON.kml\<close>. Both are libraries, so the handler below takes their results.
\<close>

record placemark =
  pm_id :: "string option"
  pm_name :: "string option"

text \<open>An entry \<^verbatim>\<open>{ id, name }\<close> of \<^verbatim>\<open>placemarkData\<close>.\<close>

record placemarkDatum =
  pid :: jsval
  pname :: string

definition placemarkData :: "placemark list \<Rightarrow> placemarkDatum list" where
  "placemarkData placemarks =
     filter (\<lambda>p. truthy (pid p))
       (map (\<lambda>pm. \<lparr>pid = (case pm_id pm of None \<Rightarrow> Null | Some s \<Rightarrow> Str s),
                   pname = (case pm_name pm of None \<Rightarrow> [] | Some n \<Rightarrow> n)\<rparr>) placemarks)"

definition nameToIdMap :: "placemarkDatum list \<Rightarrow> (string \<rightharpoonup> jsval)" where
  "nameToIdMap pd =
     foldl (\<lambda>m p. if pname p \<noteq> [] \<and> truthy (pid p) then m(trim (pname p) \<mapsto> pid p) else m)
       Map.empty pd"

text \<open>\<^verbatim>\<open>feature.properties?.[k]\<close>.\<close>

definition get_prop :: "feature \<Rightarrow> string \<Rightarrow> jsval" where
  "get_prop f k =
     (case properties f of
        None \<Rightarrow> Undefined
      | Some ps \<Rightarrow> (case ps k of None \<Rightarrow> Undefined | Some v \<Rightarrow> v))"

text \<open>A method call \<^verbatim>\<open>v.trim()\<close>: only a string has the method.\<close>

datatype js_error = TypeError

fun call_trim :: "jsval \<Rightarrow> js_error + string" where
  "call_trim (Str s) = Inr (trim s)"
| "call_trim v = Inl TypeError"

text \<open>Line 214: \<^verbatim>\<open>placemarkData[index]?.id\<close>.\<close>

definition positional_id :: "placemarkDatum list \<Rightarrow> nat \<Rightarrow> jsval" where
  "positional_id pd index = (if index < length pd then pid (pd ! index) else Undefined)"

text \<open>Lines 218 and 219: the name of the feature, trimmed, looked up in the map.\<close>

definition featureName :: "feature \<Rightarrow> js_error + string" where
  "featureName f = call_trim (js_or (js_or (get_prop f ''name'') (get_prop f ''Name'')) (Str []))"

definition id_by_name :: "(string \<rightharpoonup> jsval) \<Rightarrow> feature \<Rightarrow> js_error + jsval" where
  "id_by_name nm f =
     (case featureName f of
        Inl e \<Rightarrow> Inl e
      | Inr n \<Rightarrow> Inr (case nm n of None \<Rightarrow> Undefined | Some v \<Rightarrow> v))"

text \<open>Lines 214 to 220: the identifier that the two strategies find.\<close>

definition resolve_id :: "placemarkDatum list \<Rightarrow> (string \<rightharpoonup> jsval) \<Rightarrow> nat \<Rightarrow> feature \<Rightarrow> js_error + jsval" where
  "resolve_id pd nm index f =
     (let i = positional_id pd index in if \<not> truthy i then id_by_name nm f else Inr i)"

text \<open>Lines 223 to 230: the identifier is written to three places.\<close>

definition store_id :: "jsval \<Rightarrow> feature \<Rightarrow> feature" where
  "store_id i f =
     f\<lparr>fid := i,
       properties :=
         Some ((case properties f of None \<Rightarrow> Map.empty | Some ps \<Rightarrow> ps)
                 (''id'' \<mapsto> i, ''placemarkId'' \<mapsto> i))\<rparr>"

text \<open>Lines 233 to 235: an identifier of the property bag goes to the top level.\<close>

definition promote_id :: "feature \<Rightarrow> feature" where
  "promote_id f = (if \<not> truthy (fid f) \<and> truthy (get_prop f ''id'') then f\<lparr>fid := get_prop f ''id''\<rparr> else f)"

text \<open>The callback of \<^verbatim>\<open>forEach\<close>, lines 212 to 236, on one feature.\<close>

definition assign_id :: "placemarkDatum list \<Rightarrow> (string \<rightharpoonup> jsval) \<Rightarrow> nat \<Rightarrow> feature \<Rightarrow> js_error + feature" where
  "assign_id pd nm index f =
     (case resolve_id pd nm index f of
        Inl e \<Rightarrow> Inl e
      | Inr i \<Rightarrow> Inr (promote_id (if truthy i then store_id i f else f)))"

text \<open>\<^verbatim>\<open>geojson.features.forEach\<close>: an exception ends the loop.\<close>

fun add_ids :: "placemarkDatum list \<Rightarrow> (string \<rightharpoonup> jsval) \<Rightarrow> nat \<Rightarrow> feature list \<Rightarrow> js_error + feature list" where
  "add_ids pd nm index [] = Inr []"
| "add_ids pd nm index (f # fs) =
     (case assign_id pd nm index f of
        Inl e \<Rightarrow> Inl e
      | Inr f' \<Rightarrow>
          (case add_ids pd nm (Suc index) fs of
             Inl e \<Rightarrow> Inl e
           | Inr fs' \<Rightarrow> Inr (f' # fs')))"

text \<open>
  \<^verbatim>\<open>handleKmlUpload\<close>, the body of \<^verbatim>\<open>reader.onload\<close>, lines 193 to 256, from the
  placemark elements and the features of the parsed document on.
\<close>

definition handleKmlUpload :: "placemark list \<Rightarrow> feature list \<Rightarrow> app_state \<Rightarrow> notice \<times> app_state" where
  "handleKmlUpload placemarks features st =
     (let pd = placemarkData placemarks;
          nm = nameToIdMap pd
      in case add_ids pd nm 0 features of
           Inl e \<Rightarrow> (Msg_error ''Failed to parse KML file. Please check the file format.'', st)
         | Inr fs \<Rightarrow>
             if length fs > 0
             then (Msg_success ''KML file loaded successfully'', st\<lparr>kmlData := Some fs\<rparr>)
             else (Msg_warning ''KML file contains no features'', st))"

section \<open>The values of a render and the style of a feature\<close>

text \<open>Lines 308 to 311: a later row replaces an earlier one of the same identifier.\<close>

definition csvIdMap :: "app_state \<Rightarrow> (jsval \<rightharpoonup> csv_row)" where
  "csvIdMap st = foldl (\<lambda>m row. m(row_id row \<mapsto> row)) Map.empty (csvRows st)"

definition metricValues :: "app_state \<Rightarrow> jsnum list" where
  "metricValues st =
     (if length (csvRows st) > 0
      then filter (\<lambda>v. Number_isFinite (Num v))
             (map (\<lambda>row. Number (Num (row_metric (selectedMetric st) row))) (csvRows st))
      else [])"

definition metricMin :: "app_state \<Rightarrow> jsval" where
  "metricMin st = (if length (metricValues st) > 0 then Num (Math_min (metricValues st)) else Null)"

definition metricMax :: "app_state \<Rightarrow> jsval" where
  "metricMax st = (if length (metricValues st) > 0 then Num (Math_max (metricValues st)) else Null)"

text \<open>Lines 476 to 480 (and 515 to 519): the identifier by which a feature is joined.\<close>

definition featureId :: "feature \<Rightarrow> jsval" where
  "featureId f = js_or (js_or (js_or (fid f) (get_prop f ''id'')) (get_prop f ''Id'')) (get_prop f ''ID'')"

text \<open>
  Line 483 (and 522): \<^verbatim>\<open>featureId ? csvIdMap.get(featureId) : null\<close>. The two results
  null and undefined are both \<open>None\<close>: the code only tests the row for truth.
\<close>

definition csvRow :: "app_state \<Rightarrow> feature \<Rightarrow> csv_row option" where
  "csvRow st f = (let i = featureId f in if truthy i then csvIdMap st i else None)"

record path_style =
  color :: css_color
  weight :: jsval
  opacity :: jsval
  fillColor :: css_color
  fillOpacity :: jsval

text \<open>
  The \<^verbatim>\<open>style\<close> callback, lines 474 to 512. The literals \<^verbatim>\<open>0.8\<close> and \<^verbatim>\<open>0.2\<close>
  are the doubles nearest to 8/10 and 2/10.
\<close>

definition style :: "app_state \<Rightarrow> feature \<Rightarrow> path_style" where
  "style st f =
     (let fill0 = Given (js_or (get_prop f ''fill'') (Str ''#3388ff''));
          stroke0 = Given (js_or (get_prop f ''stroke'') (Str ''#3388ff''));
          (fillC, strokeC) =
            (case csvRow st f of
               None \<Rightarrow> (fill0, stroke0)
             | Some row \<Rightarrow>
                 if metricMin st \<noteq> Null \<and> metricMax st \<noteq> Null
                 then
                   (let val = Num (Number (Num (row_metric (selectedMetric st) row)));
                        c = getColorForValue val (metricMin st) (metricMax st)
                    in (c, c))
                 else (fill0, stroke0))
      in \<lparr>color = strokeC,
          weight = js_or (get_prop f ''stroke-width'') (Num (Fin 3)),
          opacity = js_or (get_prop f ''stroke-opacity'') (Num (fl (8 / 10))),
          fillColor = fillC,
          fillOpacity = js_or (get_prop f ''fill-opacity'') (Num (fl (2 / 10)))\<rparr>)"

section \<open>The join as the specification words it\<close>

text \<open>
  The specification resolves the identifier of a feature as the first defined value
  among the top-level \<^verbatim>\<open>id\<close> and the properties \<^verbatim>\<open>id\<close>, \<^verbatim>\<open>Id\<close>, \<^verbatim>\<open>ID\<close>, and
  answers with the record stored under it, or with no match when the identifier is
  absent or not a key. These two definitions follow its words, to be compared with
  \<open>featureId\<close> and \<open>csvRow\<close>, which follow the code.
\<close>

definition first_defined :: "jsval list \<Rightarrow> jsval" where
  "first_defined vs = (case filter (\<lambda>v. v \<noteq> Undefined) vs of [] \<Rightarrow> Undefined | v # _ \<Rightarrow> v)"

definition featureId_spec :: "feature \<Rightarrow> jsval" where
  "featureId_spec f = first_defined [fid f, get_prop f ''id'', get_prop f ''Id'', get_prop f ''ID'']"

definition resolve_spec :: "app_state \<Rightarrow> feature \<Rightarrow> csv_row option" where
  "resolve_spec st f =
     (if featureId_spec f = Undefined then None else csvIdMap st (featureId_spec f))"

section \<open>The name map as the specification words it\<close>

text \<open>
  The specification builds the map from names to identifiers from all placemarks that
  have both a name and an identifier, a later one replacing an earlier one of the same
  name. This definition follows its words (a name is looked up trimmed), to be
  compared with \<open>nameToIdMap\<close>, which follows the code.
\<close>

definition pm_name_text :: "placemark \<Rightarrow> string" where
  "pm_name_text pm = (case pm_name pm of None \<Rightarrow> [] | Some n \<Rightarrow> n)"

definition pm_id_text :: "placemark \<Rightarrow> string" where
  "pm_id_text pm = (case pm_id pm of None \<Rightarrow> [] | Some s \<Rightarrow> s)"

definition name_lookup_spec :: "placemark list \<Rightarrow> string \<Rightarrow> string option" where
  "name_lookup_spec placemarks n =
     (let ms = filter (\<lambda>pm. pm_name_text pm \<noteq> [] \<and> pm_id_text pm \<noteq> [] \<and> trim (pm_name_text pm) = n)
                 placemarks
      in if ms = [] then None else Some (pm_id_text (last ms)))"

text \<open>
  What the map layer draws: the \<^verbatim>\<open>GeoJSON\<close> layer exists when \<^verbatim>\<open>kmlData\<close> is set,
  and calls \<^verbatim>\<open>style\<close> on each feature (lines 471 to 474).
\<close>

definition loaded_features :: "app_state \<Rightarrow> feature list" where
  "loaded_features st = (case kmlData st of None \<Rightarrow> [] | Some fs \<Rightarrow> fs)"

section \<open>Inputs of the examples\<close>

text \<open>The state of the first render (lines 125 to 127).\<close>

definition initial_state :: app_state where
  "initial_state = \<lparr>kmlData = None, csvRows = [], selectedMetric = Revenue\<rparr>"

text \<open>A state in which both datasets are loaded.\<close>

definition loaded_state :: app_state where
  "loaded_state =
     \<lparr>kmlData = Some [\<lparr>fid = Str ''S1'', properties = Some [''name'' \<mapsto> Str ''North'']\<rparr>],
      csvRows = [\<lparr>row_id = Str ''S1'', revenue = Fin 100, cost = Fin 40\<rparr>],
      selectedMetric = Cost\<rparr>"

text \<open>
  A feature whose property \<^verbatim>\<open>id\<close> is the empty string and whose property \<^verbatim>\<open>Id\<close>
  names a record; a table one of whose records has the empty string for identifier.
\<close>

definition alias_feature :: feature where
  "alias_feature = \<lparr>fid = Undefined, properties = Some [''id'' \<mapsto> Str [], ''Id'' \<mapsto> Str ''S1'']\<rparr>"

definition blank_id_state :: app_state where
  "blank_id_state =
     \<lparr>kmlData = None,
      csvRows = [\<lparr>row_id = Str [], revenue = Fin 5, cost = Fin 6\<rparr>,
                 \<lparr>row_id = Str ''S1'', revenue = Fin 100, cost = Fin 40\<rparr>],
      selectedMetric = Revenue\<rparr>"



text \<open>
  Two uploaded tables with a blank revenue cell. In the first the 0 of the blank cell
  lies between the revenues of the other lines. In the second it is the only finite
  revenue, beside a line whose revenue cell is not a number.
\<close>

definition blank_mid_csv :: string where
  "blank_mid_csv = ''id,revenue,cost'' @ [LF] @ ''S1,100,40'' @ [LF] @ ''S3,  ,7'' @ [LF] @ ''S4,-100,9''"

definition blank_mid_state :: app_state where
  "blank_mid_state = snd (handleCsvUpload blank_mid_csv initial_state)"

definition flat_csv :: string where
  "flat_csv = ''id,revenue,cost'' @ [LF] @ ''R1,,5'' @ [LF] @ ''R2,n/a,6''"

definition flat_state :: app_state where
  "flat_state = snd (handleCsvUpload flat_csv initial_state)"

text \<open>
  A placemark without identifier whose feature carries an \<^verbatim>\<open>id\<close> property (as
  extended data of the document gives it).
\<close>

definition lake_placemarks :: "placemark list" where
  "lake_placemarks = [\<lparr>pm_id = None, pm_name = Some ''Lake''\<rparr>]"

definition lake_feature :: feature where
  "lake_feature = \<lparr>fid = Undefined, properties = Some [''name'' \<mapsto> Str ''Lake'', ''id'' \<mapsto> Str ''X'']\<rparr>"

text \<open>
  Two identified placemarks of the same trimmed name, followed by two placemarks
  without identifier.
\<close>

definition twin_placemarks :: "placemark list" where
  "twin_placemarks =
     [\<lparr>pm_id = Some ''S0'', pm_name = Some ''North''\<rparr>,
      \<lparr>pm_id = Some ''S1'', pm_name = Some '' North ''\<rparr>,
      \<lparr>pm_id = None, pm_name = Some ''North''\<rparr>,
      \<lparr>pm_id = None, pm_name = Some ''West''\<rparr>]"

text \<open>
  A document of two placemarks, North without identifier and East with the identifier
  E9, with one feature per placemark.
\<close>

definition east_placemarks :: "placemark list" where
  "east_placemarks =
     [\<lparr>pm_id = None, pm_name = Some ''North''\<rparr>,
      \<lparr>pm_id = Some ''E9'', pm_name = Some ''East''\<rparr>]"

definition east_features :: "feature list" where
  "east_features =
     [\<lparr>fid = Undefined, properties = Some [''name'' \<mapsto> Str ''North'']\<rparr>,
      \<lparr>fid = Str ''E9'', properties = Some [''name'' \<mapsto> Str ''East'']\<rparr>]"

text \<open>
  A document whose first placemark has no identifier and whose next two have the
  identifiers A and B, with one feature per placemark, each with the top-level
  identifier that the converter copies from its placemark.
\<close>

definition shifted_placemarks :: "placemark list" where
  "shifted_placemarks =
     [\<lparr>pm_id = None, pm_name = Some ''a''\<rparr>,
      \<lparr>pm_id = Some ''A'', pm_name = Some ''b''\<rparr>,
      \<lparr>pm_id = Some ''B'', pm_name = Some ''c''\<rparr>]"

definition shifted_features :: "feature list" where
  "shifted_features =
     [\<lparr>fid = Undefined, properties = Some [''name'' \<mapsto> Str ''a'']\<rparr>,
      \<lparr>fid = Str ''A'', properties = Some [''name'' \<mapsto> Str ''b'']\<rparr>,
      \<lparr>fid = Str ''B'', properties = Some [''name'' \<mapsto> Str ''c'']\<rparr>]"

text \<open>
  The end-to-end scenario: the table, the placemarks North (no identifier), South
  (identifier S2) and a separate North with identifier S1, and one feature per
  placemark. The state is the one after both uploads, and \<open>drawn\<close> lists, for each
  loaded feature, its name, its identifier and the two colours of its style.
\<close>

definition scenario_csv :: string where
  "scenario_csv = ''id,revenue,cost'' @ [LF] @ ''S1,100,40'' @ [LF] @ ''S2,200,150''"

definition scenario_placemarks :: "placemark list" where
  "scenario_placemarks =
     [\<lparr>pm_id = None, pm_name = Some ''North''\<rparr>,
      \<lparr>pm_id = Some ''S2'', pm_name = Some ''South''\<rparr>,
      \<lparr>pm_id = Some ''S1'', pm_name = Some ''North''\<rparr>]"

definition scenario_features :: "feature list" where
  "scenario_features =
     [\<lparr>fid = Undefined, properties = Some [''name'' \<mapsto> Str ''North'']\<rparr>,
      \<lparr>fid = Str ''S2'', properties = Some [''name'' \<mapsto> Str ''South'']\<rparr>,
      \<lparr>fid = Str ''S1'', properties = Some [''name'' \<mapsto> Str ''North'']\<rparr>]"

definition scenario_state :: "placemark list \<Rightarrow> feature list \<Rightarrow> app_state" where
  "scenario_state placemarks features =
     snd (handleKmlUpload placemarks features (snd (handleCsvUpload scenario_csv initial_state)))"

definition drawn :: "app_state \<Rightarrow> (jsval \<times> jsval \<times> css_color \<times> css_color) list" where
  "drawn st =
     map (\<lambda>f. (get_prop f ''name'', fid f, color (style st f), fillColor (style st f)))
       (loaded_features st)"

section \<open>Facts about the numbers\<close>

lemma log2i_bounds: "0 < n \<Longrightarrow> 2 ^ log2i n \<le> n \<and> n < 2 * 2 ^ log2i n"
proof (induction n rule: log2i.induct)
  case (1 n)
  show ?case
  proof (cases "n < 2")
    case True
    with "1.prems" show ?thesis by (simp add: log2i.simps)
  next
    case False
    then have pos: "0 < n div 2" by simp
    from "1.IH"[OF False pos] have ih: "2 ^ log2i (n div 2) \<le> n div 2" "n div 2 < 2 * 2 ^ log2i (n div 2)"
      by simp_all
    have l: "log2i n = Suc (log2i (n div 2))" using False by (simp add: log2i.simps)
    have "2 * 2 ^ log2i (n div 2) \<le> n" using ih(1) by linarith
    moreover have "n < 2 * (2 * 2 ^ log2i (n div 2))" using ih(2) by linarith
    ultimately show ?thesis unfolding l by simp
  qed
qed

lemma rne_cases: "rne x = \<lfloor>x\<rfloor> \<or> rne x = \<lfloor>x\<rfloor> + 1"
  by (simp add: rne_def Let_def)

lemma rne_of_int: "rne (of_int n) = n"
  by (simp add: rne_def)

lemma rne_ge: "of_int n \<le> x \<Longrightarrow> n \<le> rne x"
proof -
  assume "of_int n \<le> x"
  then have "n \<le> \<lfloor>x\<rfloor>" by (simp add: le_floor_iff)
  then show ?thesis using rne_cases[of x] by linarith
qed

lemma rne_le: "x \<le> of_int n \<Longrightarrow> rne x \<le> n"
proof -
  assume a: "x \<le> of_int n"
  show ?thesis
  proof (cases "x = of_int n")
    case True
    then show ?thesis by (simp add: rne_of_int)
  next
    case False
    with a have "x < of_int n" by simp
    then have "\<lfloor>x\<rfloor> < n" by (simp add: floor_less_iff)
    then show ?thesis using rne_cases[of x] by linarith
  qed
qed

lemma rne_le_half: "x < of_int n + 1 / 2 \<Longrightarrow> rne x \<le> n"
proof -
  assume a: "x < of_int n + 1 / 2"
  then have "x < of_int n + 1" by simp
  then have f: "\<lfloor>x\<rfloor> \<le> n" by (simp add: floor_le_iff)
  show ?thesis
  proof (cases "\<lfloor>x\<rfloor> = n")
    case True
    then have "x - of_int \<lfloor>x\<rfloor> < 1 / 2" using a by simp
    then show ?thesis using True by (simp add: rne_def Let_def)
  next
    case False
    with f have "\<lfloor>x\<rfloor> + 1 \<le> n" by simp
    then show ?thesis using rne_cases[of x] by linarith
  qed
qed

lemma rne_ge_half_even: "of_int n - 1 / 2 \<le> x \<Longrightarrow> even n \<Longrightarrow> n \<le> rne x"
proof -
  assume a: "of_int n - 1 / 2 \<le> x" and e: "even n"
  have "of_int (n - 1) \<le> x" using a by simp
  then have f: "n - 1 \<le> \<lfloor>x\<rfloor>" by (simp add: le_floor_iff)
  show ?thesis
  proof (cases "\<lfloor>x\<rfloor> = n - 1")
    case True
    then have d: "1 / 2 \<le> x - of_int \<lfloor>x\<rfloor>" using a by simp
    have o: "odd \<lfloor>x\<rfloor>" using True e by simp
    show ?thesis using d o True by (simp add: rne_def Let_def)
  next
    case False
    with f have "n \<le> \<lfloor>x\<rfloor>" by simp
    then show ?thesis using rne_cases[of x] by linarith
  qed
qed

lemma floor_minus_nonint:
  fixes x :: rat
  assumes "x \<notin> \<int>"
  shows "\<lfloor>- x\<rfloor> = - \<lfloor>x\<rfloor> - 1"
proof (rule floor_unique)
  have ne: "x \<noteq> of_int \<lfloor>x\<rfloor>" using assms by (metis Ints_of_int)
  have c: "of_int \<lfloor>x\<rfloor> \<le> x" "x < of_int \<lfloor>x\<rfloor> + 1"
    using floor_correct[of x] by simp_all
  have lt: "of_int \<lfloor>x\<rfloor> < x" using c(1) ne by linarith
  show "of_int (- \<lfloor>x\<rfloor> - 1) \<le> - x" using c(2) by simp
  show "- x < of_int (- \<lfloor>x\<rfloor> - 1) + 1" using lt by simp
qed

lemma rne_minus: "rne (- x) = - rne x"
proof (cases "x \<in> \<int>")
  case True
  then obtain n where n: "x = of_int n" by (auto elim: Ints_cases)
  have "rne (- x) = rne (of_int (- n))" by (simp add: n)
  also have "\<dots> = - n" by (rule rne_of_int)
  finally show ?thesis by (simp add: n rne_of_int)
next
  case False
  define f where "f = \<lfloor>x\<rfloor>"
  define d where "d = x - of_int f"
  have fm: "\<lfloor>- x\<rfloor> = - f - 1" unfolding f_def by (rule floor_minus_nonint[OF False])
  have dm: "- x - of_int (- f - 1) = 1 - d" by (simp add: d_def)
  have r: "rne x = (if d < 1 / 2 then f else if 1 / 2 < d then f + 1 else if even f then f else f + 1)"
    by (simp add: rne_def Let_def f_def d_def)
  have rm: "rne (- x) =
      (if 1 - d < 1 / 2 then - f - 1 else if 1 / 2 < 1 - d then - f - 1 + 1
       else if even (- f - 1) then - f - 1 else - f - 1 + 1)"
    unfolding rne_def Let_def fm dm ..
  show ?thesis
  proof (cases "d < 1 / 2")
    case True
    then show ?thesis unfolding r rm by simp
  next
    case nl: False
    show ?thesis
    proof (cases "1 / 2 < d")
      case True
      then show ?thesis unfolding r rm by simp
    next
      case False
      with nl have "d = 1 / 2" by simp
      then show ?thesis unfolding r rm by simp
    qed
  qed
qed

lemma grid_upper: "\<bar>q\<bar> * 2 ^ 1074 < 2 ^ (grid q + 53)"
  and grid_lower: "grid q = 0 \<or> 2 ^ (grid q + 52) \<le> \<bar>q\<bar> * 2 ^ 1074"
proof -
  define x where "x = \<bar>q\<bar> * 2 ^ 1074"
  define n where "n = \<lfloor>x\<rfloor>"
  have x0: "0 \<le> x" by (simp add: x_def)
  have nx: "of_int n \<le> x" "x < of_int n + 1"
    using floor_correct[of x] by (simp_all add: n_def)
  have g: "grid q = (if n < 2 ^ 53 then 0 else log2i n - 52)"
    unfolding grid_def Let_def n_def x_def ..
  have "x < 2 ^ (grid q + 53) \<and> (grid q = 0 \<or> 2 ^ (grid q + 52) \<le> x)"
  proof (cases "n < 2 ^ 53")
    case True
    then have "n + 1 \<le> 2 ^ 53" by simp
    then have "(of_int (n + 1) :: rat) \<le> of_int (2 ^ 53)" by (simp only: of_int_le_iff)
    then have "(of_int n :: rat) + 1 \<le> 2 ^ 53" by simp
    with nx(2) have "x < 2 ^ 53" by linarith
    with True show ?thesis by (simp add: g)
  next
    case False
    then have big: "(2::int) ^ 53 \<le> n" by simp
    have "(0::int) < 2 ^ 53" by simp
    with big have pos: "0 < n" by linarith
    from log2i_bounds[OF pos] have lb: "2 ^ log2i n \<le> n" "n < 2 * 2 ^ log2i n" by simp_all
    from big lb(2) have "(2::int) ^ 53 < 2 ^ Suc (log2i n)" by simp
    then have "53 < Suc (log2i n)" by (rule power_less_imp_less_exp[rotated]) simp
    then have l53: "53 \<le> log2i n" by simp
    have ge: "grid q + 52 = log2i n" "grid q + 53 = Suc (log2i n)" "grid q \<noteq> 0 \<or> True"
      using False l53 by (simp_all add: g)
    have "(2::rat) ^ log2i n = of_int (2 ^ log2i n)" by simp
    also have "\<dots> \<le> of_int n" using lb(1) by (simp only: of_int_le_iff)
    also note nx(1)
    finally have lo: "(2::rat) ^ log2i n \<le> x" .
    have "n + 1 \<le> 2 ^ Suc (log2i n)" using lb(2) by simp
    then have "(of_int (n + 1) :: rat) \<le> of_int (2 ^ Suc (log2i n))" by (simp only: of_int_le_iff)
    also have "(of_int (2 ^ Suc (log2i n)) :: rat) = 2 ^ Suc (log2i n)" by simp
    finally have "(of_int n :: rat) + 1 \<le> 2 ^ Suc (log2i n)" by simp
    with nx(2) have hi: "x < 2 ^ Suc (log2i n)" by (rule less_le_trans)
    show ?thesis unfolding ge(1) ge(2) using lo hi by blast
  qed
  then have r: "\<bar>q\<bar> * 2 ^ 1074 < 2 ^ (grid q + 53)
      \<and> (grid q = 0 \<or> 2 ^ (grid q + 52) \<le> \<bar>q\<bar> * 2 ^ 1074)"
    unfolding x_def .
  from r show "\<bar>q\<bar> * 2 ^ 1074 < 2 ^ (grid q + 53)" by (rule conjunct1)
  from r show "grid q = 0 \<or> 2 ^ (grid q + 52) \<le> \<bar>q\<bar> * 2 ^ 1074" by (rule conjunct2)
qed

lemma fl_shape:
  "fl q =
     (if 2 ^ 1024 \<le> \<bar>of_int (rne (q * 2 ^ 1074 / 2 ^ grid q)) * ((2::rat) ^ grid q / 2 ^ 1074)\<bar>
      then (if 0 < q then PosInf else NegInf)
      else Fin (of_int (rne (q * 2 ^ 1074 / 2 ^ grid q)) * (2 ^ grid q / 2 ^ 1074)))"
proof -
  have u: "q / (2 ^ grid q / 2 ^ 1074) = q * 2 ^ 1074 / 2 ^ grid q"
    by (rule divide_divide_eq_right)
  show ?thesis unfolding fl_def Let_def u ..
qed

lemma fl_exact:
  assumes "q * 2 ^ 1074 = of_int n * 2 ^ s" and "\<bar>n\<bar> < 2 ^ 53" and "\<bar>q\<bar> < 2 ^ 1024"
  shows "fl q = Fin q"
proof -
  define e where "e = grid q"
  have P: "(0::rat) < 2 ^ 1074" by simp
  have absq: "\<bar>q\<bar> * 2 ^ 1074 = of_int \<bar>n\<bar> * 2 ^ s"
  proof -
    have "\<bar>q\<bar> * 2 ^ 1074 = \<bar>q * 2 ^ 1074\<bar>" by (simp only: abs_mult power_abs abs_numeral)
    also have "\<dots> = \<bar>of_int n * 2 ^ s\<bar>" by (simp only: assms(1))
    also have "\<dots> = of_int \<bar>n\<bar> * 2 ^ s" by (simp only: abs_mult power_abs abs_numeral of_int_abs)
    finally show ?thesis .
  qed
  have es: "e \<le> s"
  proof (cases "e = 0")
    case True
    then show ?thesis by simp
  next
    case False
    with grid_lower[of q] have "2 ^ (e + 52) \<le> \<bar>q\<bar> * 2 ^ 1074" by (simp add: e_def)
    then have "(2::rat) ^ (e + 52) \<le> of_int \<bar>n\<bar> * 2 ^ s" by (simp only: absq)
    also have "\<dots> < of_int (2 ^ 53) * 2 ^ s"
      using assms(2) by (intro mult_strict_right_mono) (simp_all only: of_int_less_iff zero_less_power zero_less_numeral)
    also have "\<dots> = 2 ^ (53 + s)" by (simp add: power_add)
    finally have "(2::rat) ^ (e + 52) < 2 ^ (53 + s)" .
    then have "e + 52 < 53 + s" by (rule power_less_imp_less_exp[rotated]) simp
    then show ?thesis by simp
  qed
  have "q * 2 ^ 1074 / 2 ^ e = of_int n * (2 ^ s / 2 ^ e)" by (simp only: assms(1) times_divide_eq_right)
  also have "(2::rat) ^ s / 2 ^ e = 2 ^ (s - e)" using es by (simp add: power_diff)
  also have "of_int n * (2::rat) ^ (s - e) = of_int (n * 2 ^ (s - e))" by simp
  finally have arg: "q * 2 ^ 1074 / 2 ^ e = of_int (n * 2 ^ (s - e))" .
  have m: "rne (q * 2 ^ 1074 / 2 ^ e) = n * 2 ^ (s - e)" unfolding arg by (rule rne_of_int)
  have "of_int (n * 2 ^ (s - e)) * ((2::rat) ^ e / 2 ^ 1074) = (q * 2 ^ 1074 / 2 ^ e) * (2 ^ e / 2 ^ 1074)"
    by (simp only: arg)
  also have "\<dots> = q" by simp
  finally have r: "of_int (n * 2 ^ (s - e)) * ((2::rat) ^ e / 2 ^ 1074) = q" .
  show ?thesis
    unfolding fl_shape[of q] e_def[symmetric] m r using assms(3) by simp
qed


lemma fl_grid_multiple:
  assumes "fl q = Fin r"
  shows "\<exists>k::int. r * 2 ^ 1074 = of_int k"
proof -
  define m where "m = rne (q * 2 ^ 1074 / 2 ^ grid q)"
  from assms have "r = of_int m * ((2::rat) ^ grid q / 2 ^ 1074)"
    unfolding fl_shape[of q] m_def[symmetric] by (simp split: if_splits)
  then have "r * 2 ^ 1074 = of_int m * 2 ^ grid q" by simp
  also have "\<dots> = of_int (m * 2 ^ grid q)" by simp
  finally show ?thesis by (rule exI)
qed

lemma rne_nonzero:
  assumes "1 \<le> \<bar>y\<bar>"
  shows "rne y \<noteq> 0"
proof (cases "0 \<le> y")
  case True
  with assms have "of_int 1 \<le> y" by simp
  then have "1 \<le> rne y" by (rule rne_ge)
  then show ?thesis by simp
next
  case False
  with assms have "y \<le> of_int (- 1)" by simp
  then have "rne y \<le> - 1" by (rule rne_le)
  then show ?thesis by simp
qed

lemma fl_nonzero:
  assumes "q * 2 ^ 1074 = of_int k" and "k \<noteq> 0"
  shows "fl q \<noteq> Fin 0"
proof -
  define e where "e = grid q"
  define X where "X = q * 2 ^ 1074"
  define m where "m = rne (X / 2 ^ e)"
  have Xk: "X = of_int k" unfolding X_def by (rule assms(1))
  have absX: "\<bar>q\<bar> * 2 ^ 1074 = \<bar>X\<bar>"
    unfolding X_def by (simp only: abs_mult power_abs abs_numeral)
  have m0: "m \<noteq> 0"
  proof (cases "e = 0")
    case True
    have "m = rne (of_int k)" unfolding m_def True Xk by (simp only: power_0 div_by_1)
    then show ?thesis using assms(2) by (simp add: rne_of_int)
  next
    case False
    with grid_lower[of q] have "2 ^ (e + 52) \<le> \<bar>X\<bar>" unfolding absX e_def by blast
    then have "(2::rat) ^ 52 * 2 ^ e \<le> \<bar>X\<bar>" by (simp only: power_add mult.commute)
    then have "(2::rat) ^ 52 \<le> \<bar>X\<bar> / 2 ^ e" by (simp add: pos_le_divide_eq)
    moreover have "(1::rat) \<le> 2 ^ 52" by simp
    moreover have "\<bar>X\<bar> / 2 ^ e = \<bar>X / 2 ^ e\<bar>" by (simp only: abs_divide power_abs abs_numeral)
    ultimately have "1 \<le> \<bar>X / 2 ^ e\<bar>" by linarith
    then show ?thesis unfolding m_def by (rule rne_nonzero)
  qed
  have "of_int m * ((2::rat) ^ e / 2 ^ 1074) \<noteq> 0" using m0 by simp
  then show ?thesis
    unfolding fl_shape[of q] e_def[symmetric] X_def[symmetric] m_def[symmetric] by simp
qed

lemma grid_minus: "grid (- q) = grid q"
  by (simp add: grid_def)

lemma fl_minus: "fl (- q) = js_neg (fl q)"
proof -
  define m where "m = rne (q * 2 ^ 1074 / 2 ^ grid q)"
  have a: "rne (- q * 2 ^ 1074 / 2 ^ grid q) = - m"
  proof -
    have "- q * 2 ^ 1074 / 2 ^ grid q = - (q * 2 ^ 1074 / 2 ^ grid q)" by simp
    then show ?thesis unfolding m_def by (simp only: rne_minus)
  qed
  have b: "\<bar>of_int (- m) * ((2::rat) ^ grid q / 2 ^ 1074)\<bar> = \<bar>of_int m * ((2::rat) ^ grid q / 2 ^ 1074)\<bar>"
    by (simp add: abs_mult)
  have z: "q = 0 \<Longrightarrow> m = 0" by (simp add: m_def rne_def)
  show ?thesis
  proof (cases "q = 0")
    case True
    then show ?thesis unfolding fl_shape[of "- q"] fl_shape[of q] grid_minus a b m_def[symmetric]
      using z by simp
  next
    case False
    then show ?thesis unfolding fl_shape[of "- q"] fl_shape[of q] grid_minus a b m_def[symmetric]
      by auto
  qed
qed


lemma fl_infinite:
  assumes "dbl_limit \<le> q"
  shows "fl q = PosInf"
proof -
  define e where "e = grid q"
  define X where "X = q * 2 ^ 1074"
  define m where "m = rne (X / 2 ^ e)"
  have qpos: "0 < q" using assms by (simp add: dbl_limit_def)
  have absX: "\<bar>q\<bar> * 2 ^ 1074 = X" using qpos by (simp add: X_def)
  have lim: "2 ^ 2098 - 2 ^ 2044 \<le> X"
  proof -
    have "(2 ^ 1024 - 2 ^ 970) * 2 ^ 1074 \<le> q * (2::rat) ^ 1074"
      using assms unfolding dbl_limit_def by (intro mult_right_mono) simp_all
    then show ?thesis unfolding X_def by simp
  qed
  have up: "X < 2 ^ (e + 53)" using grid_upper[of q] unfolding absX e_def .
  have "(2::rat) ^ 2097 \<le> 2 ^ 2098 - 2 ^ 2044" by simp
  with lim up have "(2::rat) ^ 2097 < 2 ^ (e + 53)" by linarith
  then have "2097 < e + 53" by (rule power_less_imp_less_exp[rotated]) simp
  then have e45: "2045 \<le> e" by simp
  then have "e \<noteq> 0" by simp
  with grid_lower[of q] have low: "2 ^ (e + 52) \<le> X" unfolding absX e_def by blast
  have big: "(2::rat) ^ 1024 * 2 ^ 1074 \<le> of_int m * 2 ^ e"
  proof (cases "e = 2045")
    case True
    have "(2 ^ 2098 - 2 ^ 2044) / 2 ^ 2045 \<le> X / (2::rat) ^ 2045"
      using lim by (intro divide_right_mono) simp_all
    then have "of_int (2 ^ 53) - 1 / 2 \<le> X / (2::rat) ^ 2045" by simp
    then have "2 ^ 53 \<le> rne (X / 2 ^ 2045)" by (rule rne_ge_half_even) simp
    then have "2 ^ 53 \<le> m" by (simp only: m_def True)
    then have "(of_int (2 ^ 53) :: rat) \<le> of_int m" by (simp only: of_int_le_iff)
    then have "(of_int (2 ^ 53) :: rat) * 2 ^ 2045 \<le> of_int m * 2 ^ 2045"
      by (intro mult_right_mono) simp_all
    then show ?thesis unfolding True by simp
  next
    case False
    with e45 have e46: "2046 \<le> e" by simp
    have "(2::rat) ^ 52 * 2 ^ e \<le> X" using low by (simp only: power_add mult.commute)
    then have "of_int (2 ^ 52) \<le> X / (2::rat) ^ e" by (simp add: pos_le_divide_eq)
    then have "2 ^ 52 \<le> rne (X / 2 ^ e)" by (rule rne_ge)
    then have "(of_int (2 ^ 52) :: rat) \<le> of_int m" unfolding m_def by (simp only: of_int_le_iff)
    then have a: "(of_int (2 ^ 52) :: rat) * 2 ^ e \<le> of_int m * 2 ^ e"
      by (intro mult_right_mono) simp_all
    have "(2::rat) ^ 2046 \<le> 2 ^ e" using e46 by (intro power_increasing) simp_all
    then have "(of_int (2 ^ 52) :: rat) * 2 ^ 2046 \<le> of_int (2 ^ 52) * 2 ^ e"
      by (intro mult_left_mono) simp_all
    from this a have "(of_int (2 ^ 52) :: rat) * 2 ^ 2046 \<le> of_int m * 2 ^ e" by (rule order_trans)
    then show ?thesis by simp
  qed
  have "(2::rat) ^ 1024 \<le> of_int m * 2 ^ e / 2 ^ 1074"
    using big by (simp only: pos_le_divide_eq zero_less_power zero_less_numeral)
  then have "(2::rat) ^ 1024 \<le> \<bar>of_int m * (2 ^ e / 2 ^ 1074)\<bar>" by simp
  then show ?thesis
    unfolding fl_shape[of q] e_def[symmetric] X_def[symmetric] m_def[symmetric]
    using qpos by (simp only: if_True)
qed


lemma fl_finite_nonneg:
  assumes "0 \<le> q" and "q < dbl_limit"
  shows "\<exists>r. fl q = Fin r"
proof -
  define e where "e = grid q"
  define X where "X = q * 2 ^ 1074"
  define m where "m = rne (X / 2 ^ e)"
  have absX: "\<bar>q\<bar> * 2 ^ 1074 = X" using assms(1) by (simp add: X_def)
  have X0: "0 \<le> X" using assms(1) by (simp add: X_def)
  have lim: "X < 2 ^ 2098 - 2 ^ 2044"
  proof -
    have "q * (2::rat) ^ 1074 < (2 ^ 1024 - 2 ^ 970) * 2 ^ 1074"
      using assms(2) unfolding dbl_limit_def by (intro mult_strict_right_mono) simp_all
    then show ?thesis unfolding X_def by simp
  qed
  have up: "X < 2 ^ (e + 53)" using grid_upper[of q] unfolding absX e_def .
  have e45: "e \<le> 2045"
  proof (cases "e = 0")
    case True
    then show ?thesis by simp
  next
    case False
    with grid_lower[of q] have "2 ^ (e + 52) \<le> X" unfolding absX e_def by blast
    moreover have "(2::rat) ^ 2098 - 2 ^ 2044 < 2 ^ 2098" by simp
    ultimately have "(2::rat) ^ (e + 52) < 2 ^ 2098" using lim by linarith
    then have "e + 52 < 2098" by (rule power_less_imp_less_exp[rotated]) simp
    then show ?thesis by simp
  qed
  have m0: "0 \<le> m"
  proof -
    have "of_int 0 \<le> X / (2::rat) ^ e" using X0 by simp
    then show ?thesis unfolding m_def by (rule rne_ge)
  qed
  have small: "of_int m * (2::rat) ^ e < 2 ^ 1024 * 2 ^ 1074"
  proof (cases "e = 2045")
    case True
    have "X / (2::rat) ^ 2045 < (2 ^ 2098 - 2 ^ 2044) / 2 ^ 2045"
      using lim by (intro divide_strict_right_mono) simp_all
    then have "X / (2::rat) ^ 2045 < of_int (2 ^ 53 - 1) + 1 / 2" by simp
    then have "rne (X / 2 ^ 2045) \<le> 2 ^ 53 - 1" by (rule rne_le_half)
    then have "m \<le> 2 ^ 53 - 1" by (simp only: m_def True)
    then have "(of_int m :: rat) \<le> of_int (2 ^ 53 - 1)" by (simp only: of_int_le_iff)
    then have "(of_int m :: rat) * 2 ^ 2045 \<le> of_int (2 ^ 53 - 1) * 2 ^ 2045"
      by (intro mult_right_mono) simp_all
    also have "(of_int (2 ^ 53 - 1) :: rat) * 2 ^ 2045 < 2 ^ 1024 * 2 ^ 1074" by simp
    finally show ?thesis unfolding True .
  next
    case False
    with e45 have e44: "e \<le> 2044" by simp
    have "X < (2::rat) ^ 53 * 2 ^ e" using up by (simp only: power_add mult.commute)
    then have "X / (2::rat) ^ e \<le> of_int (2 ^ 53)" by (simp add: pos_divide_less_eq less_imp_le)
    then have "rne (X / 2 ^ e) \<le> 2 ^ 53" by (rule rne_le)
    then have "(of_int m :: rat) \<le> of_int (2 ^ 53)" unfolding m_def by (simp only: of_int_le_iff)
    then have a: "(of_int m :: rat) * 2 ^ e \<le> of_int (2 ^ 53) * 2 ^ e"
      by (intro mult_right_mono) simp_all
    have "(2::rat) ^ e \<le> 2 ^ 2044" using e44 by (intro power_increasing) simp_all
    then have "(of_int (2 ^ 53) :: rat) * 2 ^ e \<le> of_int (2 ^ 53) * 2 ^ 2044"
      by (intro mult_left_mono) simp_all
    with a have "(of_int m :: rat) * 2 ^ e \<le> of_int (2 ^ 53) * 2 ^ 2044" by (rule order_trans)
    also have "(of_int (2 ^ 53) :: rat) * 2 ^ 2044 < 2 ^ 1024 * 2 ^ 1074" by simp
    finally show ?thesis .
  qed
  have "of_int m * (2::rat) ^ e / 2 ^ 1074 < 2 ^ 1024"
    using small by (simp only: pos_divide_less_eq zero_less_power zero_less_numeral)
  moreover have "0 \<le> of_int m * ((2::rat) ^ e / 2 ^ 1074)" using m0 by simp
  ultimately have "\<not> (2::rat) ^ 1024 \<le> \<bar>of_int m * (2 ^ e / 2 ^ 1074)\<bar>" by simp
  then show ?thesis
    unfolding fl_shape[of q] e_def[symmetric] X_def[symmetric] m_def[symmetric]
    by (simp only: if_False) (rule exI, rule refl)
qed

lemma fl_finite:
  assumes "\<bar>q\<bar> < dbl_limit"
  shows "\<exists>r. fl q = Fin r"
proof (cases "0 \<le> q")
  case True
  with assms show ?thesis by (intro fl_finite_nonneg) simp_all
next
  case False
  with assms have "0 \<le> - q" "- q < dbl_limit" by simp_all
  then obtain r where "fl (- q) = Fin r" using fl_finite_nonneg by blast
  then have "js_neg (fl q) = Fin r" by (simp only: fl_minus)
  then show ?thesis by (cases "fl q") simp_all
qed

lemma fl_finite_iff: "(\<exists>r. fl q = Fin r) \<longleftrightarrow> \<bar>q\<bar> < dbl_limit"
proof
  assume f: "\<exists>r. fl q = Fin r"
  show "\<bar>q\<bar> < dbl_limit"
  proof (rule ccontr)
    assume "\<not> \<bar>q\<bar> < dbl_limit"
    then have "dbl_limit \<le> q \<or> dbl_limit \<le> - q" by linarith
    then show False
    proof
      assume "dbl_limit \<le> q"
      then have "fl q = PosInf" by (rule fl_infinite)
      with f show False by simp
    next
      assume "dbl_limit \<le> - q"
      then have "fl (- q) = PosInf" by (rule fl_infinite)
      then have "js_neg (fl q) = PosInf" by (simp only: fl_minus)
      with f show False by auto
    qed
  qed
next
  assume "\<bar>q\<bar> < dbl_limit"
  then show "\<exists>r. fl q = Fin r" by (rule fl_finite)
qed

lemma fl_int: "\<bar>n\<bar> < 2 ^ 53 \<Longrightarrow> fl (of_int n) = Fin (of_int n)"
proof (rule fl_exact[where n = n and s = 1074])
  assume a: "\<bar>n\<bar> < 2 ^ 53"
  show "rat_of_int n * 2 ^ 1074 = rat_of_int n * 2 ^ 1074" ..
  show "\<bar>n\<bar> < 2 ^ 53" by (rule a)
  have "\<bar>rat_of_int n\<bar> = of_int \<bar>n\<bar>" by simp
  also have "\<dots> < of_int (2 ^ 53)" using a by (simp only: of_int_less_iff)
  also have "\<dots> < 2 ^ 1024" by simp
  finally show "\<bar>rat_of_int n\<bar> < 2 ^ 1024" .
qed

lemma fl_numeral: "(numeral k :: int) < 2 ^ 53 \<Longrightarrow> fl (numeral k) = Fin (numeral k)"
  using fl_int[of "numeral k"] by simp

lemma fl_neg_numeral: "(numeral k :: int) < 2 ^ 53 \<Longrightarrow> fl (- numeral k) = Fin (- numeral k)"
  using fl_int[of "- numeral k"] by simp

lemma fl_zero: "fl 0 = Fin 0"
  using fl_int[of 0] by simp

lemma fl_one: "fl 1 = Fin 1"
  using fl_int[of 1] by simp

lemma fl_dyadic:
  assumes "\<bar>n\<bar> < 2 ^ 53" and "j \<le> 1074"
  shows "fl (of_int n / 2 ^ j) = Fin (of_int n / 2 ^ j)"
proof (rule fl_exact[where n = n and s = "1074 - j"])
  have P: "(2::rat) ^ 1074 = 2 ^ j * 2 ^ (1074 - j)"
    using assms(2) by (simp only: power_add[symmetric] le_add_diff_inverse)
  show "rat_of_int n / 2 ^ j * 2 ^ 1074 = rat_of_int n * 2 ^ (1074 - j)"
    unfolding P by simp
  show "\<bar>n\<bar> < 2 ^ 53" by (rule assms(1))
  have "\<bar>rat_of_int n / 2 ^ j\<bar> = of_int \<bar>n\<bar> / 2 ^ j" by simp
  also have "\<dots> \<le> of_int \<bar>n\<bar>" by (simp add: divide_le_eq mult_le_cancel_left1)
  also have "\<dots> < of_int (2 ^ 53)" using assms(1) by (simp only: of_int_less_iff)
  also have "\<dots> < 2 ^ 1024" by simp
  finally show "\<bar>rat_of_int n / 2 ^ j\<bar> < 2 ^ 1024" .
qed

lemma fl_half: "(numeral k :: int) < 2 ^ 53 \<Longrightarrow> fl (numeral k / 2) = Fin (numeral k / 2)"
  using fl_dyadic[of "numeral k" 1] by simp

lemma fl_neg_half: "(numeral k :: int) < 2 ^ 53 \<Longrightarrow> fl (- (numeral k / 2)) = Fin (- (numeral k / 2))"
  using fl_dyadic[of "- numeral k" 1] by simp

lemma is_double_numeral: "(numeral k :: int) < 2 ^ 53 \<Longrightarrow> is_double (numeral k)"
  by (simp add: is_double_def fl_numeral)

lemma is_double_zero: "is_double 0"
  by (simp add: is_double_def fl_zero)

lemma is_double_pow1023: "is_double (2 ^ 1023)" "is_double (- (2 ^ 1023))"
proof -
  have p: "fl (2 ^ 1023) = Fin (2 ^ 1023)"
    by (rule fl_exact[where n = 1 and s = 2097]) simp_all
  show "is_double (2 ^ 1023)" unfolding is_double_def by (rule p)
  have "fl (- (2 ^ 1023)) = js_neg (fl (2 ^ 1023))" by (rule fl_minus)
  then show "is_double (- (2 ^ 1023))" unfolding is_double_def p by simp
qed

lemma fl_difference_nonzero:
  assumes "is_double a" and "is_double b" and "a \<noteq> b"
  shows "fl (b - a) \<noteq> Fin 0"
proof -
  from assms(1) obtain ka :: int where ka: "a * 2 ^ 1074 = of_int ka"
    unfolding is_double_def using fl_grid_multiple by blast
  from assms(2) obtain kb :: int where kb: "b * 2 ^ 1074 = of_int kb"
    unfolding is_double_def using fl_grid_multiple by blast
  have d: "(b - a) * 2 ^ 1074 = of_int (kb - ka)"
    using ka kb by (simp only: left_diff_distrib of_int_diff)
  have "kb - ka \<noteq> 0"
  proof
    assume "kb - ka = 0"
    then have "a * 2 ^ 1074 = b * (2::rat) ^ 1074" using ka kb by simp
    then have "a = b" by (simp only: mult_cancel_right) simp
    with assms(3) show False by simp
  qed
  with d show ?thesis by (rule fl_nonzero)
qed

text \<open>The rounding of a number of ordinary size, with the binade given by \<open>j\<close>.\<close>

lemma fl_round:
  assumes "j \<le> 1074" and "2 ^ 52 \<le> \<bar>q\<bar> * 2 ^ j" and "\<bar>q\<bar> * 2 ^ j < 2 ^ 53"
  shows "fl q = Fin (of_int (rne (q * 2 ^ j)) / 2 ^ j)"
proof -
  define e where "e = grid q"
  define e' where "e' = 1074 - j"
  define Y where "Y = \<bar>q\<bar> * 2 ^ j"
  have P: "(2::rat) ^ 1074 = 2 ^ j * 2 ^ e'"
    unfolding e'_def using assms(1) by (simp only: power_add[symmetric] le_add_diff_inverse)
  have X: "\<bar>q\<bar> * 2 ^ 1074 = Y * 2 ^ e'" unfolding P Y_def by simp
  have lo: "(2::rat) ^ (52 + e') \<le> Y * 2 ^ e'"
    unfolding power_add using assms(2) by (intro mult_right_mono) (simp_all add: Y_def)
  have hi: "Y * 2 ^ e' < (2::rat) ^ (53 + e')"
    unfolding power_add using assms(3) by (intro mult_strict_right_mono) (simp_all add: Y_def)
  have "(2::rat) ^ (52 + e') < 2 ^ (e + 53)"
    using lo grid_upper[of q] unfolding X e_def by (rule le_less_trans)
  then have "52 + e' < e + 53" by (rule power_less_imp_less_exp[rotated]) simp
  then have le1: "e' \<le> e" by simp
  have le2: "e \<le> e'"
  proof (cases "e = 0")
    case True
    then show ?thesis by simp
  next
    case False
    with grid_lower[of q] have "2 ^ (e + 52) \<le> Y * 2 ^ e'" unfolding X e_def by blast
    from this hi have "(2::rat) ^ (e + 52) < 2 ^ (53 + e')" by (rule le_less_trans)
    then have "e + 52 < 53 + e'" by (rule power_less_imp_less_exp[rotated]) simp
    then show ?thesis by simp
  qed
  from le1 le2 have ee: "e = e'" by simp
  have arg: "q * 2 ^ 1074 / 2 ^ e = q * 2 ^ j" unfolding ee P by simp
  have u: "(2::rat) ^ e / 2 ^ 1074 = 1 / 2 ^ j" unfolding ee P by simp
  define m where "m = rne (q * 2 ^ j)"
  have "\<bar>q * 2 ^ j\<bar> = Y" unfolding Y_def by (simp only: abs_mult power_abs abs_numeral)
  with assms(3) have b: "q * 2 ^ j \<le> of_int (2 ^ 53)" "of_int (- (2 ^ 53)) \<le> q * 2 ^ j"
    unfolding Y_def[symmetric] by (simp_all add: abs_le_iff less_imp_le abs_less_iff)
  from b(1) have "m \<le> 2 ^ 53" unfolding m_def by (rule rne_le)
  moreover from b(2) have "- (2 ^ 53) \<le> m" unfolding m_def by (rule rne_ge)
  ultimately have "\<bar>m\<bar> \<le> 2 ^ 53" by simp
  then have "\<bar>rat_of_int m\<bar> \<le> of_int (2 ^ 53)" by (simp only: of_int_abs[symmetric] of_int_le_iff)
  moreover have "\<bar>rat_of_int m * (1 / 2 ^ j)\<bar> \<le> \<bar>rat_of_int m\<bar>"
    by (simp add: abs_mult divide_le_eq mult_le_cancel_left1)
  moreover have "rat_of_int (2 ^ 53) < 2 ^ 1024" by simp
  ultimately have fin: "\<not> 2 ^ 1024 \<le> \<bar>rat_of_int m * (1 / 2 ^ j)\<bar>" by linarith
  show ?thesis
    unfolding fl_shape[of q] e_def[symmetric] arg u m_def[symmetric]
    using fin by simp
qed

lemma fl_not_NaN: "fl q \<noteq> NaN"
  unfolding fl_def Let_def by (simp only: if_distrib[of "\<lambda>x. x \<noteq> NaN"] jsnum.distinct simp_thms if_cancel split: if_split)

lemma floor_numeral_div_rat:
  "\<lfloor>(numeral a :: rat) / numeral b\<rfloor> = numeral a div numeral b"
  using floor_divide_of_int_eq[of "numeral a" "numeral b", where ?'a = rat] by simp

lemma floor_neg_numeral_div_rat:
  "\<lfloor>- ((numeral a :: rat) / numeral b)\<rfloor> = - numeral a div numeral b"
  using floor_divide_of_int_eq[of "- numeral a" "numeral b", where ?'a = rat] by simp

text \<open>The three channels at \<open>t = 0\<close> and at \<open>t = 1\<close>.\<close>

lemma channels_zero:
  "Rgb (Math_round (js_add (Fin 237) (js_mul (js_sub (Fin 88) (Fin 237)) (Fin 0))))
       (Math_round (js_add (Fin 233) (js_mul (js_sub (Fin 28) (Fin 233)) (Fin 0))))
       (Math_round (js_add (Fin 254) (js_mul (js_sub (Fin 135) (Fin 254)) (Fin 0)))) =
   Rgb (Fin 237) (Fin 233) (Fin 254)"
  by (simp add: js_sub_def fl_neg_numeral fl_numeral fl_zero floor_numeral_div_rat)

lemma channels_one:
  "Rgb (Math_round (js_add (Fin 237) (js_mul (js_sub (Fin 88) (Fin 237)) (Fin 1))))
       (Math_round (js_add (Fin 233) (js_mul (js_sub (Fin 28) (Fin 233)) (Fin 1))))
       (Math_round (js_add (Fin 254) (js_mul (js_sub (Fin 135) (Fin 254)) (Fin 1)))) =
   Rgb (Fin 88) (Fin 28) (Fin 135)"
  by (simp add: js_sub_def fl_neg_numeral fl_numeral floor_numeral_div_rat)

lemma channels_NaN:
  "Rgb (Math_round (js_add (Fin 237) (js_mul (js_sub (Fin 88) (Fin 237)) NaN)))
       (Math_round (js_add (Fin 233) (js_mul (js_sub (Fin 28) (Fin 233)) NaN)))
       (Math_round (js_add (Fin 254) (js_mul (js_sub (Fin 135) (Fin 254)) NaN))) =
   Rgb NaN NaN NaN"
  by (simp add: js_sub_def fl_neg_numeral)

lemma gcfv_guard:
  "\<not> Number_isFinite val \<or> \<not> Number_isFinite mn \<or> \<not> Number_isFinite mx \<or> mn = mx
   \<Longrightarrow> getColorForValue val mn mx = Given (Str ''#7c3aed'')"
  unfolding getColorForValue_def by (simp only: if_True)

lemma gcfv_finite:
  assumes "a \<noteq> b"
  shows "getColorForValue (Num (Fin v)) (Num (Fin a)) (Num (Fin b)) =
     (let t = js_div (js_sub (Fin v) (Fin a)) (js_sub (Fin b) (Fin a)) in
      Rgb (Math_round (js_add (Fin 237) (js_mul (js_sub (Fin 88) (Fin 237)) t)))
          (Math_round (js_add (Fin 233) (js_mul (js_sub (Fin 28) (Fin 233)) t)))
          (Math_round (js_add (Fin 254) (js_mul (js_sub (Fin 135) (Fin 254)) t))))"
  using assms unfolding getColorForValue_def by simp

lemma js_sub_Fin: "js_sub (Fin x) (Fin y) = fl (x - y)"
  by (simp add: js_sub_def)

lemma gcfv_min:
  assumes "is_double a" and "is_double b" and "a \<noteq> b"
  shows "getColorForValue (Num (Fin a)) (Num (Fin a)) (Num (Fin b)) = Rgb (Fin 237) (Fin 233) (Fin 254)"
proof -
  have nz: "fl (b - a) \<noteq> Fin 0" using assms by (rule fl_difference_nonzero)
  have t: "js_div (js_sub (Fin a) (Fin a)) (js_sub (Fin b) (Fin a)) = Fin 0"
  proof (cases "fl (b - a)")
    case (Fin d)
    with nz have "d \<noteq> 0" by simp
    with Fin show ?thesis by (simp add: js_sub_Fin fl_zero)
  next
    case NaN
    then show ?thesis by (simp add: fl_not_NaN)
  qed (simp_all add: js_sub_Fin fl_zero)
  show ?thesis unfolding gcfv_finite[OF assms(3)] t Let_def by (rule channels_zero)
qed

lemma gcfv_max:
  assumes "is_double a" and "is_double b" and "a \<noteq> b" and "\<bar>b - a\<bar> < dbl_limit"
  shows "getColorForValue (Num (Fin b)) (Num (Fin a)) (Num (Fin b)) = Rgb (Fin 88) (Fin 28) (Fin 135)"
proof -
  have nz: "fl (b - a) \<noteq> Fin 0" using assms(1-3) by (rule fl_difference_nonzero)
  from assms(4) obtain d where d: "fl (b - a) = Fin d" using fl_finite by blast
  with nz have "d \<noteq> 0" by simp
  then have t: "js_div (js_sub (Fin b) (Fin a)) (js_sub (Fin b) (Fin a)) = Fin 1"
    by (simp add: js_sub_Fin d fl_one)
  show ?thesis unfolding gcfv_finite[OF assms(3)] t Let_def by (rule channels_one)
qed

lemma gcfv_max_overflow:
  assumes "a \<noteq> b" and "dbl_limit \<le> \<bar>b - a\<bar>"
  shows "getColorForValue (Num (Fin b)) (Num (Fin a)) (Num (Fin b)) = Rgb NaN NaN NaN"
proof -
  have "fl (b - a) = PosInf \<or> fl (b - a) = NegInf"
  proof (cases "0 \<le> b - a")
    case True
    with assms(2) have "dbl_limit \<le> b - a" by simp
    then show ?thesis by (simp add: fl_infinite)
  next
    case False
    with assms(2) have "dbl_limit \<le> - (b - a)" by simp
    then have "fl (- (b - a)) = PosInf" by (rule fl_infinite)
    then have "js_neg (fl (b - a)) = PosInf" by (simp only: fl_minus)
    then show ?thesis by (cases "fl (b - a)") simp_all
  qed
  then have t: "js_div (js_sub (Fin b) (Fin a)) (js_sub (Fin b) (Fin a)) = NaN"
    by (auto simp: js_sub_Fin)
  show ?thesis unfolding gcfv_finite[OF assms(1)] t Let_def by (rule channels_NaN)
qed

lemma dbl_limit_le: "dbl_limit \<le> 2 ^ 1024"
  unfolding dbl_limit_def by simp

lemma dbl_limit_ge: "2 ^ 1023 \<le> dbl_limit"
proof -
  have "(2::rat) ^ 970 \<le> 2 ^ 1023" by (rule power_increasing) simp_all
  moreover have "(2::rat) ^ 1024 = 2 * 2 ^ 1023" by simp
  ultimately show ?thesis unfolding dbl_limit_def by linarith
qed

lemma small_lt_dbl_limit: "\<bar>q\<bar> \<le> 2 ^ 64 \<Longrightarrow> \<bar>q\<bar> < dbl_limit"
proof -
  assume a: "\<bar>q\<bar> \<le> 2 ^ 64"
  have "(2::rat) ^ 64 < 2 ^ 1023" by (rule power_strict_increasing) simp_all
  with dbl_limit_ge a show ?thesis by linarith
qed

lemma fl_value:
  assumes "j \<le> 1074" and "2 ^ 52 \<le> \<bar>q\<bar> * 2 ^ j" and "\<bar>q\<bar> * 2 ^ j < 2 ^ 53"
    and "of_int (rne (q * 2 ^ j)) / 2 ^ j = r"
  shows "fl q = Fin r"
  using fl_round[OF assms(1-3)] assms(4) by simp

lemma channel_value:
  assumes "fl (d - l) = Fin k" and "fl (k * t) = Fin m" and "fl (l + m) = Fin s"
  shows "Math_round (js_add (Fin l) (js_mul (js_sub (Fin d) (Fin l)) (Fin t))) = Fin (of_int \<lfloor>s + 1 / 2\<rfloor>)"
  by (simp add: js_sub_Fin assms)

lemmas rne_eval = rne_def Let_def floor_numeral_div_rat floor_neg_numeral_div_rat

lemma fl_one_half: "fl (1 / 2) = Fin (1 / 2)"
  using fl_dyadic[of 1 1] by simp

text \<open>
  The interpolation at the value 45 of the range 0 to 82, step by step: \<open>t\<close> is the
  double nearest to 45/82, and the green channel is the double next below 120.5, where
  the exact \<open>233 - 205 * 45 / 82\<close> is 120.5.
\<close>

lemma interpolation_45_0_82:
  "(let t = js_div (js_sub (Fin 45) (Fin 0)) (js_sub (Fin 82) (Fin 0)) in
      Rgb (Math_round (js_add (Fin 237) (js_mul (js_sub (Fin 88) (Fin 237)) t)))
          (Math_round (js_add (Fin 233) (js_mul (js_sub (Fin 28) (Fin 233)) t)))
          (Math_round (js_add (Fin 254) (js_mul (js_sub (Fin 135) (Fin 254)) t)))) =
   Rgb (Fin 155) (Fin 120) (Fin 189)"
proof -
  define t :: rat where "t = 308935950048281 / 562949953421312"
  have "fl (45 / 82) = Fin t"
    unfolding t_def by (rule fl_value[where j = 53]) (simp_all add: rne_eval)
  then have t: "js_div (js_sub (Fin 45) (Fin 0)) (js_sub (Fin 82) (Fin 0)) = Fin t"
    by (simp add: js_sub_Fin fl_numeral)
  have r: "Math_round (js_add (Fin 237) (js_mul (js_sub (Fin 88) (Fin 237)) (Fin t))) = Fin 155"
  proof -
    have 1: "fl (88 - 237) = Fin (- 149)" by (simp add: fl_neg_numeral)
    have 2: "fl (- 149 * t) = Fin (- (2876966034824617 / 35184372088832))"
      unfolding t_def by (rule fl_value[where j = 46]) (simp_all add: rne_eval)
    have 3: "fl (237 + - (2876966034824617 / 35184372088832)) = Fin (5461730150228567 / 35184372088832)"
      by (rule fl_value[where j = 45]) (simp_all add: rne_eval)
    show ?thesis unfolding channel_value[OF 1 2 3] by (simp add: floor_numeral_div_rat)
  qed
  have g: "Math_round (js_add (Fin 233) (js_mul (js_sub (Fin 28) (Fin 233)) (Fin t))) = Fin 120"
  proof -
    have 1: "fl (28 - 233) = Fin (- 205)" by (simp add: fl_neg_numeral)
    have 2: "fl (- 205 * t) = Fin (- (7916483719987201 / 70368744177664))"
      unfolding t_def by (rule fl_value[where j = 46]) (simp_all add: rne_eval)
    have 3: "fl (233 + - (7916483719987201 / 70368744177664)) = Fin (8479433673408511 / 70368744177664)"
      by (rule fl_value[where j = 46]) (simp_all add: rne_eval)
    show ?thesis unfolding channel_value[OF 1 2 3] by (simp add: floor_numeral_div_rat)
  qed
  have b: "Math_round (js_add (Fin 254) (js_mul (js_sub (Fin 135) (Fin 254)) (Fin t))) = Fin 189"
  proof -
    have 1: "fl (135 - 254) = Fin (- 119)" by (simp add: fl_neg_numeral)
    have 2: "fl (- 119 * t) = Fin (- (1148855564242045 / 17592186044416))"
      unfolding t_def by (rule fl_value[where j = 46]) (simp_all add: rne_eval)
    have 3: "fl (254 + - (1148855564242045 / 17592186044416)) = Fin (3319559691039619 / 17592186044416)"
      by (rule fl_value[where j = 45]) (simp_all add: rne_eval)
    show ?thesis unfolding channel_value[OF 1 2 3] by (simp add: floor_numeral_div_rat)
  qed
  show ?thesis unfolding t Let_def r g b ..
qed

text \<open>The interpolation at \<open>t = 1/2\<close>, and the two default opacities of the style.\<close>

lemma channels_half:
  "Rgb (Math_round (js_add (Fin 237) (js_mul (js_sub (Fin 88) (Fin 237)) (Fin (1 / 2)))))
       (Math_round (js_add (Fin 233) (js_mul (js_sub (Fin 28) (Fin 233)) (Fin (1 / 2)))))
       (Math_round (js_add (Fin 254) (js_mul (js_sub (Fin 135) (Fin 254)) (Fin (1 / 2))))) =
   Rgb (Fin 163) (Fin 131) (Fin 195)"
  by (simp add: js_sub_Fin fl_neg_numeral fl_neg_half fl_half floor_numeral_div_rat)

lemma fl_tenths:
  "fl (8 / 10) = Fin (3602879701896397 / 4503599627370496)"
  "fl (2 / 10) = Fin (3602879701896397 / 18014398509481984)"
proof -
  show "fl (8 / 10) = Fin (3602879701896397 / 4503599627370496)"
    by (rule fl_value[where j = 53]) (simp_all add: rne_eval)
  show "fl (2 / 10) = Fin (3602879701896397 / 18014398509481984)"
    by (rule fl_value[where j = 55]) (simp_all add: rne_eval)
qed

section \<open>Facts about the tabular parser\<close>

lemma indexOf_ge: "- 1 \<le> indexOf xs x"
  by (induction xs) (auto simp: Let_def)

lemma indexOf_absent: "indexOf xs x = - 1 \<longleftrightarrow> x \<notin> set xs"
proof (induction xs)
  case Nil
  show ?case by simp
next
  case (Cons y ys)
  have "- 1 \<le> indexOf ys x" by (rule indexOf_ge)
  then have "indexOf ys x + 1 \<noteq> - 1" by linarith
  with Cons show ?case by (auto simp: Let_def)
qed

lemma indexOf_present:
  "x \<in> set xs \<Longrightarrow>
     0 \<le> indexOf xs x \<and> nat (indexOf xs x) < length xs \<and> xs ! nat (indexOf xs x) = x
     \<and> (\<forall>j < nat (indexOf xs x). xs ! j \<noteq> x)"
proof (induction xs)
  case Nil
  then show ?case by simp
next
  case (Cons y ys)
  show ?case
  proof (cases "y = x")
    case True
    then show ?thesis by simp
  next
    case False
    with Cons.prems have m: "x \<in> set ys" by simp
    then have n: "indexOf ys x \<noteq> - 1" by (simp add: indexOf_absent)
    from Cons.IH[OF m] have ih: "0 \<le> indexOf ys x" "nat (indexOf ys x) < length ys"
      "ys ! nat (indexOf ys x) = x" "\<forall>j < nat (indexOf ys x). ys ! j \<noteq> x" by simp_all
    have eq: "indexOf (y # ys) x = indexOf ys x + 1" using False n by (simp add: Let_def)
    have nat_eq: "nat (indexOf ys x + 1) = Suc (nat (indexOf ys x))" using ih(1) by simp
    have "\<forall>j < Suc (nat (indexOf ys x)). (y # ys) ! j \<noteq> x"
    proof (intro allI impI)
      fix j assume "j < Suc (nat (indexOf ys x))"
      then show "(y # ys) ! j \<noteq> x" using False ih(4) by (cases j) simp_all
    qed
    then show ?thesis using ih by (simp add: eq nat_eq)
  qed
qed

lemma handleCsvUpload_empty:
  "length (split_lines (trim csvText)) < 2 \<Longrightarrow>
     handleCsvUpload csvText st = (Msg_warning ''CSV file appears to be empty'', st)"
  by (simp add: handleCsvUpload_def Let_def)

lemma handleCsvUpload_missing:
  assumes "2 \<le> length (split_lines (trim csvText))"
    and "''id'' \<notin> set (map trim (split_on CHR '','' (hd (split_lines (trim csvText)))))
         \<or> ''revenue'' \<notin> set (map trim (split_on CHR '','' (hd (split_lines (trim csvText)))))
         \<or> ''cost'' \<notin> set (map trim (split_on CHR '','' (hd (split_lines (trim csvText)))))"
  shows "handleCsvUpload csvText st = (Msg_error ''CSV must contain id, revenue and cost columns'', st)"
proof -
  have "indexOf (map trim (split_on CHR '','' (hd (split_lines (trim csvText))))) ''id'' = - 1
      \<or> indexOf (map trim (split_on CHR '','' (hd (split_lines (trim csvText))))) ''revenue'' = - 1
      \<or> indexOf (map trim (split_on CHR '','' (hd (split_lines (trim csvText))))) ''cost'' = - 1"
    using assms(2) by (simp only: indexOf_absent)
  with assms(1) show ?thesis
    unfolding handleCsvUpload_def Let_def by (simp del: set_map)
qed

lemma handleCsvUpload_rows:
  assumes "2 \<le> length (split_lines (trim csvText))"
    and "''id'' \<in> set (map trim (split_on CHR '','' (hd (split_lines (trim csvText)))))"
    and "''revenue'' \<in> set (map trim (split_on CHR '','' (hd (split_lines (trim csvText)))))"
    and "''cost'' \<in> set (map trim (split_on CHR '','' (hd (split_lines (trim csvText)))))"
  shows "handleCsvUpload csvText st =
     (Msg_success ''CSV file loaded successfully'',
      st\<lparr>csvRows :=
           map (parse_row
                  (indexOf (map trim (split_on CHR '','' (hd (split_lines (trim csvText))))) ''id'')
                  (indexOf (map trim (split_on CHR '','' (hd (split_lines (trim csvText))))) ''revenue'')
                  (indexOf (map trim (split_on CHR '','' (hd (split_lines (trim csvText))))) ''cost''))
               (tl (split_lines (trim csvText))),
         selectedMetric := Revenue\<rparr>)"
proof -
  have "indexOf (map trim (split_on CHR '','' (hd (split_lines (trim csvText))))) ''id'' \<noteq> - 1"
       "indexOf (map trim (split_on CHR '','' (hd (split_lines (trim csvText))))) ''revenue'' \<noteq> - 1"
       "indexOf (map trim (split_on CHR '','' (hd (split_lines (trim csvText))))) ''cost'' \<noteq> - 1"
    using assms(2-4) by (simp_all only: indexOf_absent simp_thms)
  with assms(1) show ?thesis
    unfolding handleCsvUpload_def Let_def by (simp del: set_map)
qed

section \<open>C4: the classifier\<close>

text \<open>
  C4, as stated, fails where \<^verbatim>\<open>max - min\<close> leaves the double range: for
  \<open>min = -2^1023\<close> and \<open>max = 2^1023\<close>, both finite doubles, the difference is
  \<^verbatim>\<open>Infinity\<close>, \<open>t\<close> is \<^verbatim>\<open>Infinity / Infinity\<close>, that is NaN, and
  \<^verbatim>\<open>getColorForValue(max, min, max)\<close> is \<^verbatim>\<open>rgb(NaN, NaN, NaN)\<close>, not the dark anchor.
\<close>

theorem classifier_max_overflow_counterexample:
  "is_double (2 ^ 1023) \<and> is_double (- (2 ^ 1023))
   \<and> getColorForValue (Num (Fin (2 ^ 1023))) (Num (Fin (- (2 ^ 1023)))) (Num (Fin (2 ^ 1023))) = Rgb NaN NaN NaN"
proof -
  have ne: "- (2 ^ 1023) \<noteq> (2::rat) ^ 1023" by simp
  have "(2::rat) ^ 1024 \<le> \<bar>2 ^ 1023 - - (2 ^ 1023)\<bar>" by simp
  with dbl_limit_le have "dbl_limit \<le> \<bar>2 ^ 1023 - - (2 ^ 1023)\<bar>" by (rule order_trans)
  with ne have "getColorForValue (Num (Fin (2 ^ 1023))) (Num (Fin (- (2 ^ 1023)))) (Num (Fin (2 ^ 1023))) = Rgb NaN NaN NaN"
    by (rule gcfv_max_overflow)
  with is_double_pow1023 show ?thesis by blast
qed

text \<open>
  C4, amended. \<^verbatim>\<open>getColorForValue(value, min, max)\<close> returns the neutral constant
  \<^verbatim>\<open>#7c3aed\<close> whenever one of the three arguments is not a finite number (null
  included) or \<^verbatim>\<open>min === max\<close>. Otherwise, with \<open>t = (value - min) / (max - min)\<close>,
  each channel is \<^verbatim>\<open>Math.round(light + (dark - light) * t)\<close> for the anchors
  (237, 233, 254) and (88, 28, 135), every operation being the one of the language, on
  doubles, rounded to the nearest double. For doubles \<open>min\<close> and \<open>max\<close> that differ,
  \<^verbatim>\<open>getColorForValue(min, min, max)\<close> is exactly the light anchor;
  \<^verbatim>\<open>getColorForValue(max, min, max)\<close> is exactly the dark anchor provided
  \<open>max - min\<close> stays in the double range, that is \<open>|max - min| < 2^1024 - 2^970\<close>;
  and whenever \<open>max - min\<close> leaves the double range, \<open>t\<close> is NaN at \<open>value = max\<close> and
  the result is \<^verbatim>\<open>rgb(NaN, NaN, NaN)\<close>.
\<close>

theorem classifier_colour:
  "(\<not> Number_isFinite val \<or> \<not> Number_isFinite mn \<or> \<not> Number_isFinite mx \<or> mn = mx
      \<longrightarrow> getColorForValue val mn mx = Given (Str ''#7c3aed''))
   \<and> (a \<noteq> b \<longrightarrow>
        getColorForValue (Num (Fin v)) (Num (Fin a)) (Num (Fin b)) =
          (let t = js_div (js_sub (Fin v) (Fin a)) (js_sub (Fin b) (Fin a)) in
           Rgb (Math_round (js_add (Fin 237) (js_mul (js_sub (Fin 88) (Fin 237)) t)))
               (Math_round (js_add (Fin 233) (js_mul (js_sub (Fin 28) (Fin 233)) t)))
               (Math_round (js_add (Fin 254) (js_mul (js_sub (Fin 135) (Fin 254)) t)))))
   \<and> (is_double a \<and> is_double b \<and> a \<noteq> b \<longrightarrow>
        getColorForValue (Num (Fin a)) (Num (Fin a)) (Num (Fin b)) = Rgb (Fin 237) (Fin 233) (Fin 254))
   \<and> (is_double a \<and> is_double b \<and> a \<noteq> b \<and> \<bar>b - a\<bar> < dbl_limit \<longrightarrow>
        getColorForValue (Num (Fin b)) (Num (Fin a)) (Num (Fin b)) = Rgb (Fin 88) (Fin 28) (Fin 135))
   \<and> (a \<noteq> b \<and> dbl_limit \<le> \<bar>b - a\<bar> \<longrightarrow>
        getColorForValue (Num (Fin b)) (Num (Fin a)) (Num (Fin b)) = Rgb NaN NaN NaN)"
  using gcfv_guard[of val mn mx] gcfv_finite[of a b v] gcfv_min[of a b] gcfv_max[of a b]
    gcfv_max_overflow[of a b]
  by blast

theorem classifier_colour_witness:
  "getColorForValue Null Null Null = Given (Str ''#7c3aed'')
   \<and> getColorForValue (Num (Fin 7)) (Num (Fin 5)) (Num (Fin 5)) = Given (Str ''#7c3aed'')
   \<and> getColorForValue (Num (Fin 45)) (Num (Fin 0)) (Num (Fin 82)) = Rgb (Fin 155) (Fin 120) (Fin 189)
   \<and> getColorForValue (Num (Fin 100)) (Num (Fin 100)) (Num (Fin 200)) = Rgb (Fin 237) (Fin 233) (Fin 254)
   \<and> getColorForValue (Num (Fin 200)) (Num (Fin 100)) (Num (Fin 200)) = Rgb (Fin 88) (Fin 28) (Fin 135)
   \<and> getColorForValue (Num (Fin (3 * 2 ^ 1022))) (Num (Fin (- (2 ^ 1023)))) (Num (Fin (3 * 2 ^ 1022))) = Rgb NaN NaN NaN"
proof -
  have d: "is_double 100" "is_double 200" by (simp_all add: is_double_numeral)
  have r: "\<bar>(200::rat) - 100\<bar> < dbl_limit"
    using small_lt_dbl_limit[of 100] by simp
  have 1: "getColorForValue Null Null Null = Given (Str ''#7c3aed'')"
    using classifier_colour[of Null Null Null 0 82 45] by simp
  have 2: "getColorForValue (Num (Fin 7)) (Num (Fin 5)) (Num (Fin 5)) = Given (Str ''#7c3aed'')"
    using classifier_colour[of "Num (Fin 7)" "Num (Fin 5)" "Num (Fin 5)" 0 82 45] by simp
  have "(0::rat) \<noteq> 82" by simp
  with classifier_colour[of Null Null Null 0 82 45]
  have 3: "getColorForValue (Num (Fin 45)) (Num (Fin 0)) (Num (Fin 82)) = Rgb (Fin 155) (Fin 120) (Fin 189)"
    unfolding interpolation_45_0_82 by blast
  have "(100::rat) \<noteq> 200" by simp
  with classifier_colour[of Null Null Null 100 200 150] d r
  have 4: "getColorForValue (Num (Fin 100)) (Num (Fin 100)) (Num (Fin 200)) = Rgb (Fin 237) (Fin 233) (Fin 254)"
    and 5: "getColorForValue (Num (Fin 200)) (Num (Fin 100)) (Num (Fin 200)) = Rgb (Fin 88) (Fin 28) (Fin 135)"
    by blast+
  have ne: "- (2 ^ 1023) \<noteq> 3 * (2::rat) ^ 1022" by simp
  have "(2::rat) ^ 1024 \<le> \<bar>3 * 2 ^ 1022 - - (2 ^ 1023)\<bar>" by simp
  with dbl_limit_le have "dbl_limit \<le> \<bar>3 * 2 ^ 1022 - - (2 ^ 1023)\<bar>" by (rule order_trans)
  with classifier_colour[of Null Null Null "- (2 ^ 1023)" "3 * 2 ^ 1022" 0] ne
  have 6: "getColorForValue (Num (Fin (3 * 2 ^ 1022))) (Num (Fin (- (2 ^ 1023)))) (Num (Fin (3 * 2 ^ 1022))) = Rgb NaN NaN NaN"
    by blast
  from 1 2 3 4 5 6 show ?thesis by blast
qed

section \<open>C5: the tabular parser loses no line\<close>

lemma parse_row_id:
  "row_id (parse_row i r c line) = at_index (map trim (split_on CHR '','' line)) i"
  by (simp add: parse_row_def Let_def)

lemma example_lines:
  "split_lines (trim (''cost, id ,revenue'' @ [CR, LF] @ ''40, S1 ,100'' @ [LF] @ ''150,S2'' @ [LF]))
     = [''cost, id ,revenue'', ''40, S1 ,100'', ''150,S2'']"
  by (simp add: trim_def isWhite_def LF_def CR_def)

text \<open>
  C5. Let the lines be those of the trimmed text, with at least one line after the
  header, and let the header (split at the commas, each name trimmed) contain
  \<^verbatim>\<open>id\<close>, \<^verbatim>\<open>revenue\<close> and \<^verbatim>\<open>cost\<close>, anywhere and among any other names. Then the
  upload succeeds, there is exactly one record per data line, the index found for
  \<^verbatim>\<open>id\<close> is a position of the header that holds \<^verbatim>\<open>id\<close>, and the identifier of the
  k-th record is the cell of the k-th data line at that index, trimmed (undefined where
  the line has no such cell).
\<close>

theorem csv_parse_lossless:
  assumes "lines = split_lines (trim csvText)"
    and "2 \<le> length lines"
    and "header = map trim (split_on CHR '','' (hd lines))"
    and "''id'' \<in> set header" and "''revenue'' \<in> set header" and "''cost'' \<in> set header"
  shows "fst (handleCsvUpload csvText st) = Msg_success ''CSV file loaded successfully''
    \<and> length (csvRows (snd (handleCsvUpload csvText st))) = length (tl lines)
    \<and> 0 \<le> indexOf header ''id'' \<and> nat (indexOf header ''id'') < length header
    \<and> header ! nat (indexOf header ''id'') = ''id''
    \<and> (\<forall>k < length (tl lines).
          row_id (csvRows (snd (handleCsvUpload csvText st)) ! k) =
            at_index (map trim (split_on CHR '','' (tl lines ! k))) (indexOf header ''id''))
    \<and> (\<forall>k < length (tl lines).
          nat (indexOf header ''id'') < length (split_on CHR '','' (tl lines ! k)) \<longrightarrow>
          row_id (csvRows (snd (handleCsvUpload csvText st)) ! k) =
            Str (trim (split_on CHR '','' (tl lines ! k) ! nat (indexOf header ''id''))))"
proof -
  note r = handleCsvUpload_rows[OF assms(2)[unfolded assms(1)] assms(4-6)[unfolded assms(3) assms(1)], of st]
  have ix: "0 \<le> indexOf header ''id''" "nat (indexOf header ''id'') < length header"
    "header ! nat (indexOf header ''id'') = ''id''"
    using indexOf_present[OF assms(4)] by simp_all
  have rows: "csvRows (snd (handleCsvUpload csvText st)) =
      map (parse_row (indexOf header ''id'') (indexOf header ''revenue'') (indexOf header ''cost'')) (tl lines)"
    unfolding r assms(3) assms(1) by simp
  have a: "\<forall>k < length (tl lines).
          row_id (csvRows (snd (handleCsvUpload csvText st)) ! k) =
            at_index (map trim (split_on CHR '','' (tl lines ! k))) (indexOf header ''id'')"
    unfolding rows by (simp add: parse_row_id)
  have b: "\<forall>k < length (tl lines).
          nat (indexOf header ''id'') < length (split_on CHR '','' (tl lines ! k)) \<longrightarrow>
          row_id (csvRows (snd (handleCsvUpload csvText st)) ! k) =
            Str (trim (split_on CHR '','' (tl lines ! k) ! nat (indexOf header ''id'')))"
    using a ix(1) by (simp add: at_index_def)
  have f: "fst (handleCsvUpload csvText st) = Msg_success ''CSV file loaded successfully''"
    unfolding r by simp
  have l: "length (csvRows (snd (handleCsvUpload csvText st))) = length (tl lines)"
    unfolding rows by simp
  show ?thesis using f l ix a b by blast
qed

theorem csv_parse_lossless_witness:
  "2 \<le> length (split_lines (trim (''cost, id ,revenue'' @ [CR, LF] @ ''40, S1 ,100'' @ [LF] @ ''150,S2'' @ [LF])))
   \<and> fst (handleCsvUpload (''cost, id ,revenue'' @ [CR, LF] @ ''40, S1 ,100'' @ [LF] @ ''150,S2'' @ [LF])
            \<lparr>kmlData = None, csvRows = [], selectedMetric = Cost\<rparr>)
       = Msg_success ''CSV file loaded successfully''
   \<and> length (csvRows (snd (handleCsvUpload (''cost, id ,revenue'' @ [CR, LF] @ ''40, S1 ,100'' @ [LF] @ ''150,S2'' @ [LF])
            \<lparr>kmlData = None, csvRows = [], selectedMetric = Cost\<rparr>))) = 2
   \<and> row_id (csvRows (snd (handleCsvUpload (''cost, id ,revenue'' @ [CR, LF] @ ''40, S1 ,100'' @ [LF] @ ''150,S2'' @ [LF])
            \<lparr>kmlData = None, csvRows = [], selectedMetric = Cost\<rparr>)) ! 0) = Str ''S1''
   \<and> row_id (csvRows (snd (handleCsvUpload (''cost, id ,revenue'' @ [CR, LF] @ ''40, S1 ,100'' @ [LF] @ ''150,S2'' @ [LF])
            \<lparr>kmlData = None, csvRows = [], selectedMetric = Cost\<rparr>)) ! 1) = Str ''S2''"
proof -
  let ?t = "''cost, id ,revenue'' @ [CR, LF] @ ''40, S1 ,100'' @ [LF] @ ''150,S2'' @ [LF]"
  let ?lines = "[''cost, id ,revenue'', ''40, S1 ,100'', ''150,S2'']"
  let ?header = "[''cost'', ''id'', ''revenue'']"
  have 1: "?lines = split_lines (trim ?t)" by (simp only: example_lines)
  have 2: "2 \<le> length ?lines" by simp
  have 3: "?header = map trim (split_on CHR '','' (hd ?lines))" by (simp add: trim_def isWhite_def)
  have 4: "''id'' \<in> set ?header" "''revenue'' \<in> set ?header" "''cost'' \<in> set ?header" by simp_all
  have c: "map trim (split_on CHR '','' ''40, S1 ,100'') = [''40'', ''S1'', ''100'']"
    "map trim (split_on CHR '','' ''150,S2'') = [''150'', ''S2'']"
    by (simp_all add: trim_def isWhite_def)
  have i: "indexOf ?header ''id'' = 1" by simp
  let ?rows = "csvRows (snd (handleCsvUpload ?t \<lparr>kmlData = None, csvRows = [], selectedMetric = Cost\<rparr>))"
  note T = csv_parse_lossless[OF 1 2 3 4, of "\<lparr>kmlData = None, csvRows = [], selectedMetric = Cost\<rparr>"]
  from T have f: "fst (handleCsvUpload ?t \<lparr>kmlData = None, csvRows = [], selectedMetric = Cost\<rparr>)
      = Msg_success ''CSV file loaded successfully''" by (rule conjunct1)
  from T have l: "length ?rows = length (tl ?lines)" by blast
  have r0: "row_id (?rows ! 0) = at_index (map trim (split_on CHR '','' ''40, S1 ,100'')) 1"
    using T i by simp
  have r1: "row_id (?rows ! 1) = at_index (map trim (split_on CHR '','' ''150,S2'')) 1"
    using T i by simp
  show ?thesis
    using f l r0 r1 unfolding example_lines c by (simp add: at_index_def)
qed

section \<open>C7: the parse errors\<close>

lemma handleCsvUpload_failure:
  "fst (handleCsvUpload csvText st) \<noteq> Msg_success ''CSV file loaded successfully''
     \<Longrightarrow> snd (handleCsvUpload csvText st) = st"
proof (cases "length (split_lines (trim csvText)) < 2")
  case True
  then show ?thesis by (simp add: handleCsvUpload_empty)
next
  case False
  then have two: "2 \<le> length (split_lines (trim csvText))" by simp
  assume ns: "fst (handleCsvUpload csvText st) \<noteq> Msg_success ''CSV file loaded successfully''"
  show ?thesis
  proof (cases "''id'' \<in> set (map trim (split_on CHR '','' (hd (split_lines (trim csvText)))))
      \<and> ''revenue'' \<in> set (map trim (split_on CHR '','' (hd (split_lines (trim csvText)))))
      \<and> ''cost'' \<in> set (map trim (split_on CHR '','' (hd (split_lines (trim csvText)))))")
    case True
    then have m: "''id'' \<in> set (map trim (split_on CHR '','' (hd (split_lines (trim csvText)))))"
      "''revenue'' \<in> set (map trim (split_on CHR '','' (hd (split_lines (trim csvText)))))"
      "''cost'' \<in> set (map trim (split_on CHR '','' (hd (split_lines (trim csvText)))))"
      by blast+
    have "fst (handleCsvUpload csvText st) = Msg_success ''CSV file loaded successfully''"
      by (simp only: handleCsvUpload_rows[OF two m, of st] fst_conv)
    with ns show ?thesis by (simp only: simp_thms)
  next
    case False
    then have "''id'' \<notin> set (map trim (split_on CHR '','' (hd (split_lines (trim csvText)))))
         \<or> ''revenue'' \<notin> set (map trim (split_on CHR '','' (hd (split_lines (trim csvText)))))
         \<or> ''cost'' \<notin> set (map trim (split_on CHR '','' (hd (split_lines (trim csvText)))))"
      by blast
    then show ?thesis by (simp only: handleCsvUpload_missing[OF two, of st] snd_conv)
  qed
qed

lemma handleKmlUpload_no_features:
  "handleKmlUpload placemarks [] st = (Msg_warning ''KML file contains no features'', st)"
  by (simp add: handleKmlUpload_def Let_def)

lemma handleKmlUpload_failure:
  "fst (handleKmlUpload placemarks features st) \<noteq> Msg_success ''KML file loaded successfully''
     \<Longrightarrow> snd (handleKmlUpload placemarks features st) = st"
  unfolding handleKmlUpload_def Let_def by (simp split: sum.splits if_splits)

text \<open>
  C7, as stated, fails for a text of one line whose header lacks the columns: the test
  on the number of lines comes first, so \<^verbatim>\<open>name,value\<close> alone is answered with
  \<^verbatim>\<open>CSV file appears to be empty\<close> (the EmptyTable of the specification), not with the
  message about the missing columns.
\<close>

theorem header_only_csv_counterexample:
  "''id'' \<notin> set (map trim (split_on CHR '','' (hd (split_lines (trim ''name,value'')))))
   \<and> handleCsvUpload ''name,value'' \<lparr>kmlData = None, csvRows = [], selectedMetric = Revenue\<rparr>
       = (Msg_warning ''CSV file appears to be empty'',
          \<lparr>kmlData = None, csvRows = [], selectedMetric = Revenue\<rparr>)"
proof -
  have l: "split_lines (trim ''name,value'') = [''name,value'']"
    by (simp add: trim_def isWhite_def LF_def CR_def)
  have h: "map trim (split_on CHR '','' ''name,value'') = [''name'', ''value'']"
    by (simp add: trim_def isWhite_def)
  have n: "''id'' \<notin> set (map trim (split_on CHR '','' (hd (split_lines (trim ''name,value'')))))"
    unfolding l list.sel h by simp
  have e: "handleCsvUpload ''name,value'' \<lparr>kmlData = None, csvRows = [], selectedMetric = Revenue\<rparr>
       = (Msg_warning ''CSV file appears to be empty'',
          \<lparr>kmlData = None, csvRows = [], selectedMetric = Revenue\<rparr>)"
    by (rule handleCsvUpload_empty) (simp add: l)
  from n e show ?thesis by (rule conjI)
qed

text \<open>
  C7, amended. A text with fewer than two lines (once trimmed) is answered with the
  warning \<^verbatim>\<open>CSV file appears to be empty\<close> (EmptyTable), whatever its header; a
  text of at least two lines whose header lacks one of \<^verbatim>\<open>id\<close>, \<^verbatim>\<open>revenue\<close>,
  \<^verbatim>\<open>cost\<close> is answered with the error \<^verbatim>\<open>CSV must contain id, revenue and cost columns\<close>
  (MissingColumns); a document with no feature is answered with the warning
  \<^verbatim>\<open>KML file contains no features\<close> (EmptyDocument). In each of these cases, and
  whenever a handler does not report success, the state (the loaded collection, the
  loaded rows and the selected metric) is the one before the upload.
\<close>

theorem parse_errors_keep_state:
  "(length (split_lines (trim csvText)) < 2 \<longrightarrow>
      handleCsvUpload csvText st = (Msg_warning ''CSV file appears to be empty'', st))
   \<and> (2 \<le> length (split_lines (trim csvText)) \<and>
       (''id'' \<notin> set (map trim (split_on CHR '','' (hd (split_lines (trim csvText)))))
        \<or> ''revenue'' \<notin> set (map trim (split_on CHR '','' (hd (split_lines (trim csvText)))))
        \<or> ''cost'' \<notin> set (map trim (split_on CHR '','' (hd (split_lines (trim csvText)))))) \<longrightarrow>
      handleCsvUpload csvText st = (Msg_error ''CSV must contain id, revenue and cost columns'', st))
   \<and> handleKmlUpload placemarks [] st = (Msg_warning ''KML file contains no features'', st)
   \<and> (fst (handleCsvUpload csvText st) \<noteq> Msg_success ''CSV file loaded successfully'' \<longrightarrow>
        snd (handleCsvUpload csvText st) = st)
   \<and> (fst (handleKmlUpload placemarks features st) \<noteq> Msg_success ''KML file loaded successfully'' \<longrightarrow>
        snd (handleKmlUpload placemarks features st) = st)"
  using handleCsvUpload_empty[of csvText st] handleCsvUpload_missing[of csvText st]
    handleKmlUpload_no_features[of placemarks st] handleCsvUpload_failure[of csvText st]
    handleKmlUpload_failure[of placemarks features st]
  by blast

theorem parse_errors_keep_state_witness:
  "handleCsvUpload ''id,revenue,cost'' loaded_state
      = (Msg_warning ''CSV file appears to be empty'', loaded_state)
   \<and> handleCsvUpload (''name,value'' @ [LF] @ ''a,1'') loaded_state
      = (Msg_error ''CSV must contain id, revenue and cost columns'', loaded_state)
   \<and> handleKmlUpload [] [] loaded_state
      = (Msg_warning ''KML file contains no features'', loaded_state)"
proof -
  have l1: "split_lines (trim ''id,revenue,cost'') = [''id,revenue,cost'']"
    by (simp add: trim_def isWhite_def LF_def CR_def)
  have l2: "split_lines (trim (''name,value'' @ [LF] @ ''a,1'')) = [''name,value'', ''a,1'']"
    by (simp add: trim_def isWhite_def LF_def CR_def)
  have h: "map trim (split_on CHR '','' ''name,value'') = [''name'', ''value'']"
    by (simp add: trim_def isWhite_def)
  have p1: "length (split_lines (trim ''id,revenue,cost'')) < 2"
    unfolding l1 by simp
  have p2: "2 \<le> length (split_lines (trim (''name,value'' @ [LF] @ ''a,1''))) \<and>
       (''id'' \<notin> set (map trim (split_on CHR '','' (hd (split_lines (trim (''name,value'' @ [LF] @ ''a,1''))))))
        \<or> ''revenue'' \<notin> set (map trim (split_on CHR '','' (hd (split_lines (trim (''name,value'' @ [LF] @ ''a,1''))))))
        \<or> ''cost'' \<notin> set (map trim (split_on CHR '','' (hd (split_lines (trim (''name,value'' @ [LF] @ ''a,1'')))))))"
    unfolding l2 list.sel h by simp
  note T1 = parse_errors_keep_state[of "''id,revenue,cost''" loaded_state "[]" "[]"]
  note T2 = parse_errors_keep_state[of "''name,value'' @ [LF] @ ''a,1''" loaded_state "[]" "[]"]
  have a: "handleCsvUpload ''id,revenue,cost'' loaded_state
      = (Msg_warning ''CSV file appears to be empty'', loaded_state)"
    using T1 p1 by blast
  have b: "handleCsvUpload (''name,value'' @ [LF] @ ''a,1'') loaded_state
      = (Msg_error ''CSV must contain id, revenue and cost columns'', loaded_state)"
    using T2 p2 by blast
  have c: "handleKmlUpload [] [] loaded_state
      = (Msg_warning ''KML file contains no features'', loaded_state)"
    using T1 by blast
  from a b c show ?thesis by blast
qed

section \<open>Facts about the join\<close>

lemma csvIdMap_foldl:
  "foldl (\<lambda>m row. m(row_id row \<mapsto> row)) m0 rows k =
     (if filter (\<lambda>r. row_id r = k) rows = [] then m0 k
      else Some (last (filter (\<lambda>r. row_id r = k) rows)))"
  by (induction rows rule: rev_induct) simp_all

lemma csvIdMap_last:
  "csvIdMap st k =
     (if filter (\<lambda>r. row_id r = k) (csvRows st) = [] then None
      else Some (last (filter (\<lambda>r. row_id r = k) (csvRows st))))"
  unfolding csvIdMap_def by (simp add: csvIdMap_foldl)

lemma csvIdMap_Some:
  assumes "csvIdMap st k = Some r"
  shows "row_id r = k \<and> r \<in> set (csvRows st)"
proof -
  let ?rs = "filter (\<lambda>r. row_id r = k) (csvRows st)"
  from assms have ne: "?rs \<noteq> []" and r: "r = last ?rs"
    by (simp_all add: csvIdMap_last split: if_splits)
  from ne have "last ?rs \<in> set ?rs" by (rule last_in_set)
  with r show ?thesis by simp
qed

lemma csvIdMap_None: "k \<notin> row_id ` set (csvRows st) \<Longrightarrow> csvIdMap st k = None"
proof -
  assume "k \<notin> row_id ` set (csvRows st)"
  then have "filter (\<lambda>r. row_id r = k) (csvRows st) = []"
    by (auto simp: filter_empty_conv)
  then show ?thesis by (simp add: csvIdMap_last)
qed

lemma featureId_first_truthy:
  "featureId f =
     (if truthy (fid f) then fid f
      else if truthy (get_prop f ''id'') then get_prop f ''id''
      else if truthy (get_prop f ''Id'') then get_prop f ''Id''
      else get_prop f ''ID'')"
  by (simp add: featureId_def js_or_def)

lemma csvRow_eq: "csvRow st f = (if truthy (featureId f) then csvIdMap st (featureId f) else None)"
  by (simp add: csvRow_def Let_def)

lemma alias_featureId: "featureId alias_feature = Str ''S1''"
  by (simp add: featureId_def js_or_def get_prop_def alias_feature_def)

lemma loaded_index: "csvIdMap loaded_state (Str ''S1'') = Some \<lparr>row_id = Str ''S1'', revenue = Fin 100, cost = Fin 40\<rparr>"
  by (simp add: csvIdMap_def loaded_state_def)

section \<open>C6: the join resolver\<close>

text \<open>
  C6, as stated, fails where a defined value is falsy: for a feature without top-level
  identifier whose property \<^verbatim>\<open>id\<close> is the empty string and whose property \<^verbatim>\<open>Id\<close>
  is \<^verbatim>\<open>S1\<close>, the first defined value is the empty string, under which the index
  stores nothing, while the code passes over it and answers with the record of \<^verbatim>\<open>S1\<close>.
\<close>

theorem first_defined_counterexample:
  "featureId_spec alias_feature = Str []
   \<and> resolve_spec loaded_state alias_feature = None
   \<and> csvRow loaded_state alias_feature = Some \<lparr>row_id = Str ''S1'', revenue = Fin 100, cost = Fin 40\<rparr>"
proof -
  have a: "featureId_spec alias_feature = Str []"
    by (simp add: featureId_spec_def first_defined_def get_prop_def alias_feature_def)
  have b: "csvIdMap loaded_state (Str []) = None"
    by (simp add: csvIdMap_def loaded_state_def)
  have c: "csvRow loaded_state alias_feature = Some \<lparr>row_id = Str ''S1'', revenue = Fin 100, cost = Fin 40\<rparr>"
    by (simp add: csvRow_def alias_featureId loaded_index)
  show ?thesis using a b c by (simp add: resolve_spec_def)
qed

text \<open>
  C6, amended. The resolution is a total function (nothing in it throws). The
  identifier of a feature is the first truthy value among the top-level \<^verbatim>\<open>id\<close> and
  the properties \<^verbatim>\<open>id\<close>, \<^verbatim>\<open>Id\<close>, \<^verbatim>\<open>ID\<close>, in that order (the property
  \<^verbatim>\<open>ID\<close> itself when none is truthy). The result is the record stored under exactly
  that value, which is the last row of the table with that identifier; there is no
  match whenever the identifier is falsy (absent or the empty string) or is not the
  identifier of a row.
\<close>

theorem join_resolver:
  "featureId f =
     (if truthy (fid f) then fid f
      else if truthy (get_prop f ''id'') then get_prop f ''id''
      else if truthy (get_prop f ''Id'') then get_prop f ''Id''
      else get_prop f ''ID'')
   \<and> csvRow st f = (if truthy (featureId f) then csvIdMap st (featureId f) else None)
   \<and> csvIdMap st k =
        (if filter (\<lambda>r. row_id r = k) (csvRows st) = [] then None
         else Some (last (filter (\<lambda>r. row_id r = k) (csvRows st))))
   \<and> (csvRow st f = Some r \<longrightarrow> row_id r = featureId f \<and> r \<in> set (csvRows st))
   \<and> (\<not> truthy (featureId f) \<or> featureId f \<notin> row_id ` set (csvRows st) \<longrightarrow> csvRow st f = None)"
proof -
  have a: "csvRow st f = Some r \<longrightarrow> row_id r = featureId f \<and> r \<in> set (csvRows st)"
    using csvIdMap_Some[of st "featureId f" r] by (simp add: csvRow_eq split: if_splits)
  have b: "\<not> truthy (featureId f) \<or> featureId f \<notin> row_id ` set (csvRows st) \<longrightarrow> csvRow st f = None"
    using csvIdMap_None[of "featureId f" st] by (auto simp: csvRow_eq)
  show ?thesis
    using featureId_first_truthy[of f] csvRow_eq[of st f] csvIdMap_last[of st k] a b
    by blast
qed

theorem join_resolver_witness:
  "featureId alias_feature = Str ''S1''
   \<and> csvRow loaded_state alias_feature = Some \<lparr>row_id = Str ''S1'', revenue = Fin 100, cost = Fin 40\<rparr>
   \<and> csvRow loaded_state \<lparr>fid = Str ''s1'', properties = None\<rparr> = None
   \<and> csvRow loaded_state \<lparr>fid = Str '' S1'', properties = None\<rparr> = None
   \<and> csvRow loaded_state \<lparr>fid = Undefined, properties = None\<rparr> = None"
proof -
  have rows: "row_id ` set (csvRows loaded_state) = {Str ''S1''}"
    by (simp add: loaded_state_def)
  have i1: "featureId \<lparr>fid = Str ''s1'', properties = None\<rparr> = Str ''s1''"
    by (simp add: featureId_def js_or_def get_prop_def)
  have i2: "featureId \<lparr>fid = Str '' S1'', properties = None\<rparr> = Str '' S1''"
    by (simp add: featureId_def js_or_def get_prop_def)
  have i3: "featureId \<lparr>fid = Undefined, properties = None\<rparr> = Undefined"
    by (simp add: featureId_def js_or_def get_prop_def)
  have none: "\<And>f. featureId f \<notin> row_id ` set (csvRows loaded_state) \<or> \<not> truthy (featureId f)
      \<Longrightarrow> csvRow loaded_state f = None"
  proof -
    fix f assume p: "featureId f \<notin> row_id ` set (csvRows loaded_state) \<or> \<not> truthy (featureId f)"
    from join_resolver[of f loaded_state "Str ''S1''" undefined]
    have "\<not> truthy (featureId f) \<or> featureId f \<notin> row_id ` set (csvRows loaded_state)
        \<longrightarrow> csvRow loaded_state f = None" by blast
    with p show "csvRow loaded_state f = None" by blast
  qed
  from join_resolver[of alias_feature loaded_state "Str ''S1''" undefined]
  have "csvRow loaded_state alias_feature =
      (if truthy (featureId alias_feature) then csvIdMap loaded_state (featureId alias_feature) else None)"
    by blast
  then have a: "csvRow loaded_state alias_feature = Some \<lparr>row_id = Str ''S1'', revenue = Fin 100, cost = Fin 40\<rparr>"
    by (simp add: alias_featureId loaded_index)
  have b: "csvRow loaded_state \<lparr>fid = Str ''s1'', properties = None\<rparr> = None"
    by (rule none) (simp add: i1 rows)
  have c: "csvRow loaded_state \<lparr>fid = Str '' S1'', properties = None\<rparr> = None"
    by (rule none) (simp add: i2 rows)
  have d: "csvRow loaded_state \<lparr>fid = Undefined, properties = None\<rparr> = None"
    by (rule none) (simp add: i3)
  from alias_featureId a b c d show ?thesis by blast
qed

section \<open>C10: the empty identifier\<close>

text \<open>
  C10. A feature whose resolved identifier is the empty string has no match in any
  state, as a feature with no identifier at all: the index is not consulted. So a
  record that is matched to a feature never has the empty string for identifier, also
  when such a record is a key of the index.
\<close>

theorem empty_id_never_joined:
  "(featureId f = Str [] \<longrightarrow> csvRow st f = None)
   \<and> (featureId f = Undefined \<longrightarrow> csvRow st f = None)
   \<and> (csvRow st f = Some r \<longrightarrow> row_id r \<noteq> Str [])"
proof -
  have "csvRow st f = Some r \<longrightarrow> row_id r \<noteq> Str []"
  proof
    assume s: "csvRow st f = Some r"
    then have t: "truthy (featureId f)" by (simp add: csvRow_eq split: if_splits)
    from s t have "csvIdMap st (featureId f) = Some r" by (simp add: csvRow_eq)
    then have "row_id r = featureId f" using csvIdMap_Some by blast
    with t show "row_id r \<noteq> Str []" by auto
  qed
  then show ?thesis by (simp add: csvRow_eq)
qed

theorem empty_id_never_joined_witness:
  "csvIdMap blank_id_state (Str []) = Some \<lparr>row_id = Str [], revenue = Fin 5, cost = Fin 6\<rparr>
   \<and> featureId \<lparr>fid = Undefined, properties = Some [''ID'' \<mapsto> Str []]\<rparr> = Str []
   \<and> csvRow blank_id_state \<lparr>fid = Undefined, properties = Some [''ID'' \<mapsto> Str []]\<rparr> = None
   \<and> csvRow blank_id_state \<lparr>fid = Str ''S1'', properties = None\<rparr>
        = Some \<lparr>row_id = Str ''S1'', revenue = Fin 100, cost = Fin 40\<rparr>
   \<and> row_id \<lparr>row_id = Str ''S1'', revenue = Fin 100, cost = Fin 40\<rparr> \<noteq> Str []"
proof -
  let ?f = "\<lparr>fid = Undefined, properties = Some [''ID'' \<mapsto> Str []]\<rparr>"
  let ?g = "\<lparr>fid = Str ''S1'', properties = None\<rparr>"
  let ?r = "\<lparr>row_id = Str ''S1'', revenue = Fin 100, cost = Fin 40\<rparr>"
  have k: "csvIdMap blank_id_state (Str []) = Some \<lparr>row_id = Str [], revenue = Fin 5, cost = Fin 6\<rparr>"
    by (simp add: csvIdMap_def blank_id_state_def)
  have i: "featureId ?f = Str []"
    by (simp add: featureId_def js_or_def get_prop_def)
  have a: "csvRow blank_id_state ?f = None"
    using empty_id_never_joined[of ?f blank_id_state undefined] i by blast
  have g: "csvRow blank_id_state ?g = Some ?r"
    by (simp add: csvRow_def featureId_def js_or_def get_prop_def csvIdMap_def blank_id_state_def)
  have n: "row_id ?r \<noteq> Str []"
    using empty_id_never_joined[of ?g blank_id_state ?r] g by blast
  from k i a g n show ?thesis by blast
qed

section \<open>Facts about the metric range and the style\<close>

lemma finite_list_map:
  "\<forall>v \<in> set xs. Number_isFinite (Num v) \<Longrightarrow> \<exists>qs. xs = map Fin qs"
proof (induction xs)
  case Nil
  then show ?case by simp
next
  case (Cons x xs)
  then obtain qs where qs: "xs = map Fin qs" by auto
  from Cons.prems have "Number_isFinite (Num x)" by simp
  then obtain q where "x = Fin q" by (cases x) simp_all
  with qs have "x # xs = map Fin (q # qs)" by simp
  then show ?case by (rule exI)
qed

lemma foldl_min_Fin: "foldl js_min2 (Fin c) (map Fin qs) = Fin (foldl min c qs)"
  by (induction qs arbitrary: c) simp_all

lemma foldl_max_Fin: "foldl js_max2 (Fin c) (map Fin qs) = Fin (foldl max c qs)"
  by (induction qs arbitrary: c) simp_all

lemma foldl_min_Min: "foldl min (c::rat) qs = Min (set (c # qs))"
proof (induction qs arbitrary: c)
  case Nil
  show ?case by simp
next
  case (Cons q qs)
  have "foldl min c (q # qs) = Min (set (min c q # qs))" using Cons.IH by simp
  also have "\<dots> = Min (set (c # q # qs))"
  proof (cases "set qs = {}")
    case True
    then show ?thesis by (simp add: min_def)
  next
    case False
    then show ?thesis by (simp add: min.assoc)
  qed
  finally show ?case .
qed

lemma foldl_max_Max: "foldl max (c::rat) qs = Max (set (c # qs))"
proof (induction qs arbitrary: c)
  case Nil
  show ?case by simp
next
  case (Cons q qs)
  have "foldl max c (q # qs) = Max (set (max c q # qs))" using Cons.IH by simp
  also have "\<dots> = Max (set (c # q # qs))"
  proof (cases "set qs = {}")
    case True
    then show ?thesis by (simp add: max_def)
  next
    case False
    then show ?thesis by (simp add: max.assoc)
  qed
  finally show ?case .
qed

lemma Math_min_Fin: "qs \<noteq> [] \<Longrightarrow> Math_min (map Fin qs) = Fin (Min (set qs))"
  by (cases qs) (simp_all add: Math_min_def foldl_min_Fin foldl_min_Min)

lemma Math_max_Fin: "qs \<noteq> [] \<Longrightarrow> Math_max (map Fin qs) = Fin (Max (set qs))"
  by (cases qs) (simp_all add: Math_max_def foldl_max_Fin foldl_max_Max)

lemma metricValues_finite: "\<forall>v \<in> set (metricValues st). Number_isFinite (Num v)"
  by (simp add: metricValues_def)

lemma metricValues_mem:
  "row \<in> set (csvRows st) \<Longrightarrow> row_metric (selectedMetric st) row = Fin q \<Longrightarrow>
     Fin q \<in> set (metricValues st)"
proof -
  assume r: "row \<in> set (csvRows st)" and m: "row_metric (selectedMetric st) row = Fin q"
  from r have "csvRows st \<noteq> []" by auto
  moreover from r m have "Fin q \<in> (\<lambda>row. row_metric (selectedMetric st) row) ` set (csvRows st)"
    by force
  ultimately show ?thesis by (simp add: metricValues_def)
qed

lemma metric_range:
  assumes "Fin q \<in> set (metricValues st)"
  shows "\<exists>a b. metricMin st = Num (Fin a) \<and> metricMax st = Num (Fin b) \<and> a \<le> q \<and> q \<le> b
           \<and> Fin a \<in> set (metricValues st) \<and> Fin b \<in> set (metricValues st)"
proof -
  obtain qs where qs: "metricValues st = map Fin qs"
    using finite_list_map[OF metricValues_finite] by blast
  with assms have ne: "qs \<noteq> []" and mem: "q \<in> set qs" by auto
  have mn: "metricMin st = Num (Fin (Min (set qs)))"
    using ne by (simp add: metricMin_def qs Math_min_Fin)
  have mx: "metricMax st = Num (Fin (Max (set qs)))"
    using ne by (simp add: metricMax_def qs Math_max_Fin)
  have "Min (set qs) \<le> q" "q \<le> Max (set qs)" using mem by simp_all
  moreover have "Min (set qs) \<in> set qs" "Max (set qs) \<in> set qs" using ne by simp_all
  ultimately show ?thesis using mn mx qs by auto
qed

lemma style_classified:
  assumes "csvRow st f = Some row" "metricMin st \<noteq> Null" "metricMax st \<noteq> Null"
  shows "color (style st f) = getColorForValue (Num (row_metric (selectedMetric st) row)) (metricMin st) (metricMax st)"
    and "fillColor (style st f) = getColorForValue (Num (row_metric (selectedMetric st) row)) (metricMin st) (metricMax st)"
  using assms by (simp_all add: style_def Let_def)





section \<open>C8: the style record\<close>




section \<open>C9: a blank metric cell\<close>

lemma Number_blank: "trim s = [] \<Longrightarrow> Number (Str s) = Fin 0"
  by (simp add: Number_of_string_def)

lemma trim_idem_empty: "trim [] = []"
  by (simp add: trim_def)

lemma Number_samples:
  "Number_of_string ''100'' = Fin 100" "Number_of_string ''40'' = Fin 40"
  "Number_of_string ''200'' = Fin 200" "Number_of_string ''150'' = Fin 150"
  "Number_of_string ''5'' = Fin 5" "Number_of_string ''6'' = Fin 6"
  "Number_of_string ''7'' = Fin 7" "Number_of_string ''9'' = Fin 9"
  "Number_of_string ''-100'' = Fin (- 100)" "Number_of_string ''n/a'' = NaN"
  "Number_of_string [] = Fin 0"
  by (simp_all add: Number_of_string_def trim_def isWhite_def unsigned_decimal_def isDigit_def
      hexVal_def exponent_part_def scale10_def fl_numeral Let_def)

lemma parse_row_blank_revenue:
  assumes "0 \<le> r" "nat r < length (split_on CHR '','' line)"
    "trim (split_on CHR '','' line ! nat r) = []"
  shows "revenue (parse_row i r c line) = Fin 0"
proof -
  have "at_index (map trim (split_on CHR '','' line)) r = Str []"
    using assms by (simp add: at_index_def)
  then show ?thesis by (simp add: parse_row_def Let_def Number_of_string_def trim_idem_empty)
qed

lemma parse_row_blank_cost:
  assumes "0 \<le> c" "nat c < length (split_on CHR '','' line)"
    "trim (split_on CHR '','' line ! nat c) = []"
  shows "cost (parse_row i r c line) = Fin 0"
proof -
  have "at_index (map trim (split_on CHR '','' line)) c = Str []"
    using assms by (simp add: at_index_def)
  then show ?thesis by (simp add: parse_row_def Let_def Number_of_string_def trim_idem_empty)
qed

lemma zero_row_range:
  assumes "row \<in> set (csvRows st)" "row_metric (selectedMetric st) row = Fin 0"
  shows "Fin 0 \<in> set (metricValues st) \<and>
         (\<exists>a b. metricMin st = Num (Fin a) \<and> metricMax st = Num (Fin b) \<and> a \<le> 0 \<and> 0 \<le> b)"
proof -
  have m: "Fin 0 \<in> set (metricValues st)" using assms by (rule metricValues_mem)
  from metric_range[OF m] m show ?thesis by blast
qed

lemma zero_row_colour:
  assumes "csvRow st f = Some row" "row_metric (selectedMetric st) row = Fin 0"
  shows "\<exists>a b. metricMin st = Num (Fin a) \<and> metricMax st = Num (Fin b) \<and> a \<le> 0 \<and> 0 \<le> b
       \<and> color (style st f) =
           (if a = b then Given (Str ''#7c3aed'')
            else let t = js_div (js_sub (Fin 0) (Fin a)) (js_sub (Fin b) (Fin a)) in
              Rgb (Math_round (js_add (Fin 237) (js_mul (js_sub (Fin 88) (Fin 237)) t)))
                  (Math_round (js_add (Fin 233) (js_mul (js_sub (Fin 28) (Fin 233)) t)))
                  (Math_round (js_add (Fin 254) (js_mul (js_sub (Fin 135) (Fin 254)) t))))
       \<and> fillColor (style st f) = color (style st f)"
proof -
  from assms(1) have t: "truthy (featureId f)" "csvIdMap st (featureId f) = Some row"
    by (simp_all add: csvRow_eq split: if_splits)
  then have mem: "row \<in> set (csvRows st)" using csvIdMap_Some by blast
  from zero_row_range[OF mem assms(2)] obtain a b
    where ab: "metricMin st = Num (Fin a)" "metricMax st = Num (Fin b)" "a \<le> 0" "0 \<le> b" by blast
  then have nn: "metricMin st \<noteq> Null" "metricMax st \<noteq> Null" by simp_all
  note c = style_classified[OF assms(1) nn, unfolded assms(2)]
  have col: "color (style st f) =
           (if a = b then Given (Str ''#7c3aed'')
            else let t = js_div (js_sub (Fin 0) (Fin a)) (js_sub (Fin b) (Fin a)) in
              Rgb (Math_round (js_add (Fin 237) (js_mul (js_sub (Fin 88) (Fin 237)) t)))
                  (Math_round (js_add (Fin 233) (js_mul (js_sub (Fin 28) (Fin 233)) t)))
                  (Math_round (js_add (Fin 254) (js_mul (js_sub (Fin 135) (Fin 254)) t))))"
  proof (cases "a = b")
    case True
    then have "getColorForValue (Num (Fin 0)) (Num (Fin a)) (Num (Fin b)) = Given (Str ''#7c3aed'')"
      by (intro gcfv_guard) simp
    with True show ?thesis unfolding c(1) ab by simp
  next
    case False
    from gcfv_finite[OF this, of 0] False show ?thesis unfolding c(1) ab by simp
  qed
  have "fillColor (style st f) = color (style st f)" unfolding c ..
  with ab col show ?thesis by blast
qed

lemma flat_lines:
  "split_lines (trim flat_csv) = [''id,revenue,cost'', ''R1,,5'', ''R2,n/a,6'']"
  by (simp add: flat_csv_def trim_def isWhite_def LF_def CR_def)

lemma flat_table:
  "flat_state =
     \<lparr>kmlData = None,
      csvRows = [\<lparr>row_id = Str ''R1'', revenue = Fin 0, cost = Fin 5\<rparr>,
                 \<lparr>row_id = Str ''R2'', revenue = NaN, cost = Fin 6\<rparr>],
      selectedMetric = Revenue\<rparr>"
  unfolding flat_state_def handleCsvUpload_def Let_def flat_lines
  by (simp add: trim_def isWhite_def parse_row_def at_index_def Number_samples initial_state_def)

lemma blank_mid_lines:
  "split_lines (trim blank_mid_csv) = [''id,revenue,cost'', ''S1,100,40'', ''S3,  ,7'', ''S4,-100,9'']"
  by (simp add: blank_mid_csv_def trim_def isWhite_def LF_def CR_def)

lemma blank_mid_table:
  "blank_mid_state =
     \<lparr>kmlData = None,
      csvRows = [\<lparr>row_id = Str ''S1'', revenue = Fin 100, cost = Fin 40\<rparr>,
                 \<lparr>row_id = Str ''S3'', revenue = Fin 0, cost = Fin 7\<rparr>,
                 \<lparr>row_id = Str ''S4'', revenue = Fin (- 100), cost = Fin 9\<rparr>],
      selectedMetric = Revenue\<rparr>"
  unfolding blank_mid_state_def handleCsvUpload_def Let_def blank_mid_lines
  by (simp add: trim_def isWhite_def parse_row_def at_index_def Number_samples initial_state_def)

text \<open>
  C9, as stated, fails in its last part where the 0 of the blank cell is the whole
  range. In the table of \<open>flat_csv\<close> the line R1 has an empty revenue cell and the
  line R2 a revenue cell that is not a number: the record of R1 has the revenue 0, that
  of R2 has NaN, the range is 0 to 0, and the feature of R1 is drawn with the neutral
  constant \<^verbatim>\<open>#7c3aed\<close>, exactly as the feature of R2, whose record has no value.
\<close>

theorem blank_cell_flat_range_counterexample:
  "csvRows flat_state =
     [\<lparr>row_id = Str ''R1'', revenue = Fin 0, cost = Fin 5\<rparr>,
      \<lparr>row_id = Str ''R2'', revenue = NaN, cost = Fin 6\<rparr>]
   \<and> metricMin flat_state = Num (Fin 0)
   \<and> metricMax flat_state = Num (Fin 0)
   \<and> color (style flat_state \<lparr>fid = Str ''R1'', properties = None\<rparr>) = Given (Str ''#7c3aed'')
   \<and> fillColor (style flat_state \<lparr>fid = Str ''R1'', properties = None\<rparr>) = Given (Str ''#7c3aed'')
   \<and> color (style flat_state \<lparr>fid = Str ''R2'', properties = None\<rparr>) = Given (Str ''#7c3aed'')
   \<and> fillColor (style flat_state \<lparr>fid = Str ''R2'', properties = None\<rparr>) = Given (Str ''#7c3aed'')"
proof -
  have mn: "metricMin flat_state = Num (Fin 0)" "metricMax flat_state = Num (Fin 0)"
    unfolding flat_table
    by (simp_all add: metricMin_def metricMax_def metricValues_def Math_min_def Math_max_def)
  have g: "\<And>v. getColorForValue v (Num (Fin 0)) (Num (Fin 0)) = Given (Str ''#7c3aed'')"
    by (rule gcfv_guard) simp
  have c: "color (style flat_state \<lparr>fid = Str ''R1'', properties = None\<rparr>) = Given (Str ''#7c3aed'')"
    "fillColor (style flat_state \<lparr>fid = Str ''R1'', properties = None\<rparr>) = Given (Str ''#7c3aed'')"
    "color (style flat_state \<lparr>fid = Str ''R2'', properties = None\<rparr>) = Given (Str ''#7c3aed'')"
    "fillColor (style flat_state \<lparr>fid = Str ''R2'', properties = None\<rparr>) = Given (Str ''#7c3aed'')"
    unfolding style_def Let_def mn g
    unfolding flat_table
    by (simp_all add: csvRow_def featureId_def js_or_def csvIdMap_def get_prop_def)
  from mn c show ?thesis unfolding flat_table by simp
qed

text \<open>
  C9, amended. \<^verbatim>\<open>Number\<close> of a string that is empty once trimmed is the finite
  number 0, so a record read from a line whose revenue (or cost) cell is empty or blank
  has revenue (or cost) 0. Such a record, when its metric is selected, puts the value 0
  among the values of the range, so the range exists and encloses 0. A feature matched
  to it is coloured by the classifier at the value 0: where the two ends of the range
  differ, stroke and fill have the interpolated colour, each channel being
  \<^verbatim>\<open>Math.round(light + (dark - light) * t)\<close> for \<open>t = (0 - min) / (max - min)\<close>;
  where the range is the single value 0, they have the neutral constant
  \<^verbatim>\<open>#7c3aed\<close>, the colour that a record with no value gets.
\<close>

theorem blank_cell_is_zero:
  "(trim s = [] \<longrightarrow> Number (Str s) = Fin 0 \<and> Number_isFinite (Num (Number (Str s))))
   \<and> (0 \<le> r \<and> nat r < length (split_on CHR '','' line) \<and> trim (split_on CHR '','' line ! nat r) = []
        \<longrightarrow> revenue (parse_row i r c line) = Fin 0)
   \<and> (0 \<le> c \<and> nat c < length (split_on CHR '','' line) \<and> trim (split_on CHR '','' line ! nat c) = []
        \<longrightarrow> cost (parse_row i r c line) = Fin 0)
   \<and> (row \<in> set (csvRows st) \<and> row_metric (selectedMetric st) row = Fin 0 \<longrightarrow>
        Fin 0 \<in> set (metricValues st) \<and>
        (\<exists>a b. metricMin st = Num (Fin a) \<and> metricMax st = Num (Fin b) \<and> a \<le> 0 \<and> 0 \<le> b))
   \<and> (csvRow st f = Some row \<and> row_metric (selectedMetric st) row = Fin 0 \<longrightarrow>
        (\<exists>a b. metricMin st = Num (Fin a) \<and> metricMax st = Num (Fin b) \<and> a \<le> 0 \<and> 0 \<le> b
           \<and> color (style st f) =
               (if a = b then Given (Str ''#7c3aed'')
                else let t = js_div (js_sub (Fin 0) (Fin a)) (js_sub (Fin b) (Fin a)) in
                  Rgb (Math_round (js_add (Fin 237) (js_mul (js_sub (Fin 88) (Fin 237)) t)))
                      (Math_round (js_add (Fin 233) (js_mul (js_sub (Fin 28) (Fin 233)) t)))
                      (Math_round (js_add (Fin 254) (js_mul (js_sub (Fin 135) (Fin 254)) t))))
           \<and> fillColor (style st f) = color (style st f)))"
proof -
  have 1: "trim s = [] \<longrightarrow> Number (Str s) = Fin 0 \<and> Number_isFinite (Num (Number (Str s)))"
    using Number_blank[of s] by simp
  show ?thesis
    using 1 parse_row_blank_revenue[of r line i c] parse_row_blank_cost[of c line i r]
      zero_row_range[of row st] zero_row_colour[of st f row]
    by blast
qed

theorem blank_cell_is_zero_witness:
  "Number (Str ''  '') = Fin 0
   \<and> revenue (parse_row 0 1 2 ''S3,  ,7'') = Fin 0
   \<and> csvRows blank_mid_state =
       [\<lparr>row_id = Str ''S1'', revenue = Fin 100, cost = Fin 40\<rparr>,
        \<lparr>row_id = Str ''S3'', revenue = Fin 0, cost = Fin 7\<rparr>,
        \<lparr>row_id = Str ''S4'', revenue = Fin (- 100), cost = Fin 9\<rparr>]
   \<and> Fin 0 \<in> set (metricValues blank_mid_state)
   \<and> metricMin blank_mid_state = Num (Fin (- 100))
   \<and> metricMax blank_mid_state = Num (Fin 100)
   \<and> color (style blank_mid_state \<lparr>fid = Str ''S3'', properties = None\<rparr>) = Rgb (Fin 163) (Fin 131) (Fin 195)
   \<and> fillColor (style blank_mid_state \<lparr>fid = Str ''S3'', properties = None\<rparr>) = Rgb (Fin 163) (Fin 131) (Fin 195)"
proof -
  let ?row = "\<lparr>row_id = Str ''S3'', revenue = Fin 0, cost = Fin 7\<rparr>"
  let ?f = "\<lparr>fid = Str ''S3'', properties = None\<rparr>"
  note T = blank_cell_is_zero[of "''  ''" 1 "''S3,  ,7''" 0 2 ?row blank_mid_state ?f]
  have sp: "split_on CHR '','' ''S3,  ,7'' = [''S3'', ''  '', ''7'']" by simp
  have tr: "trim ''  '' = []" by (simp add: trim_def isWhite_def)
  from T tr have n: "Number (Str ''  '') = Fin 0" by blast
  have pre: "(0::int) \<le> 1 \<and> nat 1 < length (split_on CHR '','' ''S3,  ,7'')
      \<and> trim (split_on CHR '','' ''S3,  ,7'' ! nat 1) = []"
    unfolding sp by (simp add: tr)
  from T pre have rv: "revenue (parse_row 0 1 2 ''S3,  ,7'') = Fin 0" by blast
  have rows: "csvRows blank_mid_state =
       [\<lparr>row_id = Str ''S1'', revenue = Fin 100, cost = Fin 40\<rparr>, ?row,
        \<lparr>row_id = Str ''S4'', revenue = Fin (- 100), cost = Fin 9\<rparr>]"
    unfolding blank_mid_table by simp
  have mem: "?row \<in> set (csvRows blank_mid_state)" unfolding rows by simp
  have sel: "row_metric (selectedMetric blank_mid_state) ?row = Fin 0"
    unfolding blank_mid_table by simp
  from T mem sel have v: "Fin 0 \<in> set (metricValues blank_mid_state)" by blast
  have mn: "metricMin blank_mid_state = Num (Fin (- 100))" "metricMax blank_mid_state = Num (Fin 100)"
    unfolding blank_mid_table
    by (simp_all add: metricMin_def metricMax_def metricValues_def Math_min_def Math_max_def)
  have cr: "csvRow blank_mid_state ?f = Some ?row"
    unfolding blank_mid_table by (simp add: csvRow_def featureId_def js_or_def csvIdMap_def)
  from T cr sel obtain a b where ab: "metricMin blank_mid_state = Num (Fin a)"
      "metricMax blank_mid_state = Num (Fin b)"
    and col: "color (style blank_mid_state ?f) =
               (if a = b then Given (Str ''#7c3aed'')
                else let t = js_div (js_sub (Fin 0) (Fin a)) (js_sub (Fin b) (Fin a)) in
                  Rgb (Math_round (js_add (Fin 237) (js_mul (js_sub (Fin 88) (Fin 237)) t)))
                      (Math_round (js_add (Fin 233) (js_mul (js_sub (Fin 28) (Fin 233)) t)))
                      (Math_round (js_add (Fin 254) (js_mul (js_sub (Fin 135) (Fin 254)) t))))"
    and fil: "fillColor (style blank_mid_state ?f) = color (style blank_mid_state ?f)"
    by blast
  from ab mn have a: "a = - 100" and b: "b = 100" by simp_all
  have t: "js_div (js_sub (Fin 0) (Fin (- 100))) (js_sub (Fin 100) (Fin (- 100))) = Fin (1 / 2)"
    by (simp add: js_sub_Fin fl_numeral fl_one_half)
  have c: "color (style blank_mid_state ?f) = Rgb (Fin 163) (Fin 131) (Fin 195)"
    unfolding col a b t Let_def channels_half by simp
  with fil have c': "fillColor (style blank_mid_state ?f) = Rgb (Fin 163) (Fin 131) (Fin 195)"
    by simp
  from n rv rows v mn c c' show ?thesis by blast
qed

section \<open>Facts about the identifiers of the features\<close>

lemma placemarkData_snoc:
  "placemarkData (pms @ [pm]) =
     placemarkData pms @
       (if pm_id_text pm \<noteq> [] then [\<lparr>pid = Str (pm_id_text pm), pname = pm_name_text pm\<rparr>] else [])"
  by (simp add: placemarkData_def pm_id_text_def pm_name_text_def split: option.splits)

lemma nameToIdMap_snoc:
  "nameToIdMap (pd @ [p]) =
     (if pname p \<noteq> [] \<and> truthy (pid p) then (nameToIdMap pd)(trim (pname p) \<mapsto> pid p)
      else nameToIdMap pd)"
  by (simp add: nameToIdMap_def)

lemma nameToIdMap_spec:
  "nameToIdMap (placemarkData pms) n = map_option Str (name_lookup_spec pms n)"
proof (induction pms rule: rev_induct)
  case Nil
  show ?case by (simp add: nameToIdMap_def placemarkData_def name_lookup_spec_def)
next
  case (snoc pm pms)
  show ?case
  proof (cases "pm_id_text pm \<noteq> []")
    case False
    then show ?thesis using snoc by (simp add: placemarkData_snoc name_lookup_spec_def)
  next
    case True
    then show ?thesis using snoc
      by (simp add: placemarkData_snoc nameToIdMap_snoc name_lookup_spec_def Let_def)
  qed
qed

lemma name_lookup_spec_nonempty: "name_lookup_spec pms n = Some s \<Longrightarrow> s \<noteq> []"
proof -
  let ?ms = "filter (\<lambda>pm. pm_name_text pm \<noteq> [] \<and> pm_id_text pm \<noteq> [] \<and> trim (pm_name_text pm) = n) pms"
  assume "name_lookup_spec pms n = Some s"
  then have ne: "?ms \<noteq> []" and s: "s = pm_id_text (last ?ms)"
    by (simp_all add: name_lookup_spec_def Let_def split: if_splits)
  from ne have "last ?ms \<in> set ?ms" by (rule last_in_set)
  then have "pm_id_text (last ?ms) \<noteq> []" by simp
  with s show ?thesis by simp
qed

lemma promote_id_fid:
  "fid (promote_id f) =
     (if truthy (fid f) then fid f
      else if truthy (get_prop f ''id'') then get_prop f ''id'' else fid f)"
  by (simp add: promote_id_def)

lemma promote_id_properties: "properties (promote_id f) = properties f"
  by (simp add: promote_id_def)

lemma promote_store: "truthy i \<Longrightarrow> promote_id (store_id i f) = store_id i f"
  by (simp add: promote_id_def store_id_def)

lemma featureName_read:
  "featureName f =
     call_trim (if truthy (get_prop f ''name'') then get_prop f ''name''
                else if truthy (get_prop f ''Name'') then get_prop f ''Name'' else Str [])"
  by (simp add: featureName_def js_or_def)

lemma trim_plain:
  "trim ''Lake'' = ''Lake''" "trim ''North'' = ''North''" "trim '' North '' = ''North''"
  "trim ''West'' = ''West''" "trim ''South'' = ''South''" "trim ''East'' = ''East''"
  "trim ''a'' = ''a''" "trim ''b'' = ''b''" "trim ''c'' = ''c''"
  by (simp_all add: trim_def isWhite_def)

lemma placemarkData_all_identified:
  assumes "\<forall>pm \<in> set pms. pm_id_text pm \<noteq> []"
  shows "placemarkData pms = map (\<lambda>pm. \<lparr>pid = Str (pm_id_text pm), pname = pm_name_text pm\<rparr>) pms"
  using assms
proof (induction pms rule: rev_induct)
  case Nil
  show ?case by (simp add: placemarkData_def)
next
  case (snoc pm pms)
  then show ?case by (simp add: placemarkData_snoc)
qed

lemma positional_when_all_identified:
  assumes "\<forall>pm \<in> set pms. pm_id_text pm \<noteq> []" and "i < length pms"
  shows "assign_id (placemarkData pms) nm i f = Inr (store_id (Str (pm_id_text (pms ! i))) f)"
    and "fid (store_id (Str (pm_id_text (pms ! i))) f) = Str (pm_id_text (pms ! i))"
proof -
  from assms have t: "pm_id_text (pms ! i) \<noteq> []" by simp
  have p: "positional_id (placemarkData pms) i = Str (pm_id_text (pms ! i))"
    using assms(2) by (simp add: placemarkData_all_identified[OF assms(1)] positional_id_def)
  show "assign_id (placemarkData pms) nm i f = Inr (store_id (Str (pm_id_text (pms ! i))) f)"
    using t by (simp add: assign_id_def resolve_id_def p promote_store)
  show "fid (store_id (Str (pm_id_text (pms ! i))) f) = Str (pm_id_text (pms ! i))"
    by (simp add: store_id_def)
qed

section \<open>C3: the fallback by name\<close>

lemma scenario_data:
  "placemarkData scenario_placemarks =
     [\<lparr>pid = Str ''S2'', pname = ''South''\<rparr>, \<lparr>pid = Str ''S1'', pname = ''North''\<rparr>]"
  by (simp add: placemarkData_def scenario_placemarks_def)

lemma east_data:
  "placemarkData east_placemarks = [\<lparr>pid = Str ''E9'', pname = ''East''\<rparr>]"
  by (simp add: placemarkData_def east_placemarks_def)

text \<open>
  C3 does not hold of the code. A feature obtains no positional identifier when the
  placemark at its position has none. The code, however, reads position \<open>i\<close> of
  \<^verbatim>\<open>placemarkData\<close>, the list of the placemarks that have an identifier (line 200),
  where the comment of line 213 announces the placemark at the same index: whenever
  that list has an entry at \<open>i\<close>, such a feature takes the identifier of another
  placemark, and the lookup by name is not reached. In the scenario of C1 the first
  feature, North, whose placemark has no identifier and whose name maps to S1, ends
  with S2. In the document of North (no identifier) and East (E9), the name North has
  no entry in the map and the first feature carries no identifier of its own; it ends
  with E9, the identifier of East, where the claim leaves it without identifier.
\<close>

theorem fallback_not_reached:
  "pm_id (scenario_placemarks ! 0) = None
   \<and> featureName (scenario_features ! 0) = Inr ''North''
   \<and> name_lookup_spec scenario_placemarks ''North'' = Some ''S1''
   \<and> map fid (loaded_features (snd (handleKmlUpload scenario_placemarks scenario_features initial_state)))
       = [Str ''S2'', Str ''S1'', Str ''S1'']
   \<and> pm_id (east_placemarks ! 0) = None
   \<and> featureName (east_features ! 0) = Inr ''North''
   \<and> name_lookup_spec east_placemarks ''North'' = None
   \<and> fid (east_features ! 0) = Undefined
   \<and> get_prop (east_features ! 0) ''id'' = Undefined
   \<and> map fid (loaded_features (snd (handleKmlUpload east_placemarks east_features initial_state)))
       = [Str ''E9'', Str ''E9'']"
proof -
  have 1: "pm_id (scenario_placemarks ! 0) = None" by (simp add: scenario_placemarks_def)
  have 2: "featureName (scenario_features ! 0) = Inr ''North''"
    by (simp add: featureName_def js_or_def get_prop_def scenario_features_def trim_plain)
  have 3: "name_lookup_spec scenario_placemarks ''North'' = Some ''S1''"
    by (simp add: name_lookup_spec_def scenario_placemarks_def pm_id_text_def pm_name_text_def trim_plain)
  have 4: "map fid (loaded_features (snd (handleKmlUpload scenario_placemarks scenario_features initial_state)))
       = [Str ''S2'', Str ''S1'', Str ''S1'']"
    by (simp add: handleKmlUpload_def Let_def scenario_data scenario_features_def nameToIdMap_def
        assign_id_def resolve_id_def positional_id_def id_by_name_def featureName_def js_or_def
        get_prop_def trim_plain store_id_def promote_id_def loaded_features_def)
  have 5: "pm_id (east_placemarks ! 0) = None" by (simp add: east_placemarks_def)
  have 6: "featureName (east_features ! 0) = Inr ''North''"
    by (simp add: featureName_def js_or_def get_prop_def east_features_def trim_plain)
  have 7: "name_lookup_spec east_placemarks ''North'' = None"
    by (simp add: name_lookup_spec_def east_placemarks_def pm_id_text_def pm_name_text_def trim_plain)
  have 8: "fid (east_features ! 0) = Undefined" "get_prop (east_features ! 0) ''id'' = Undefined"
    by (simp_all add: east_features_def get_prop_def)
  have 9: "map fid (loaded_features (snd (handleKmlUpload east_placemarks east_features initial_state)))
       = [Str ''E9'', Str ''E9'']"
    by (simp add: handleKmlUpload_def Let_def east_data east_features_def nameToIdMap_def
        assign_id_def resolve_id_def positional_id_def id_by_name_def featureName_def js_or_def
        get_prop_def trim_plain store_id_def promote_id_def loaded_features_def)
  from 1 2 3 4 5 6 7 8 9 show ?thesis by blast
qed

text \<open>
  Where the read of line 214 finds nothing, the code does fall back as C3 says: the
  identifier is the entry of the trimmed display name (the property \<^verbatim>\<open>name\<close>, or
  \<^verbatim>\<open>Name\<close> when that is absent or empty) in the map from names to identifiers, which
  is the map of the placemarks that have both a name and an identifier, a later
  placemark replacing an earlier one of the same trimmed name (\<open>nameToIdMap_spec\<close>).
  When the name has no entry, no identifier is assigned; lines 233 to 235 then copy a
  truthy \<^verbatim>\<open>id\<close> property to the top-level identifier, by design (their comment is
  ``Also try to preserve any existing ID''), so the feature of the placemark Lake,
  which has the \<^verbatim>\<open>id\<close> property X, ends with the identifier X.
\<close>

lemma fallback_after_empty_read:
  assumes "\<not> truthy (positional_id (placemarkData pms) i)" and "featureName f = Inr n"
  shows "resolve_id (placemarkData pms) (nameToIdMap (placemarkData pms)) i f =
           Inr (case name_lookup_spec pms n of None \<Rightarrow> Undefined | Some s \<Rightarrow> Str s)
    \<and> (\<forall>s. name_lookup_spec pms n = Some s \<longrightarrow>
          assign_id (placemarkData pms) (nameToIdMap (placemarkData pms)) i f = Inr (store_id (Str s) f)
          \<and> fid (store_id (Str s) f) = Str s)
    \<and> (name_lookup_spec pms n = None \<longrightarrow>
          assign_id (placemarkData pms) (nameToIdMap (placemarkData pms)) i f = Inr (promote_id f))"
proof -
  have r: "resolve_id (placemarkData pms) (nameToIdMap (placemarkData pms)) i f =
           Inr (case name_lookup_spec pms n of None \<Rightarrow> Undefined | Some s \<Rightarrow> Str s)"
    using assms by (simp add: resolve_id_def id_by_name_def nameToIdMap_spec split: option.splits)
  have a: "\<forall>s. name_lookup_spec pms n = Some s \<longrightarrow>
          assign_id (placemarkData pms) (nameToIdMap (placemarkData pms)) i f = Inr (store_id (Str s) f)
          \<and> fid (store_id (Str s) f) = Str s"
  proof (intro allI impI)
    fix s assume s: "name_lookup_spec pms n = Some s"
    then have "truthy (Str s)" using name_lookup_spec_nonempty by simp
    then show "assign_id (placemarkData pms) (nameToIdMap (placemarkData pms)) i f = Inr (store_id (Str s) f)
          \<and> fid (store_id (Str s) f) = Str s"
      unfolding assign_id_def r s by (simp add: promote_store) (simp add: store_id_def)
  qed
  have b: "name_lookup_spec pms n = None \<longrightarrow>
          assign_id (placemarkData pms) (nameToIdMap (placemarkData pms)) i f = Inr (promote_id f)"
    unfolding assign_id_def r by simp
  show ?thesis using r a b by blast
qed

lemma promoted_id_example:
  "positional_id (placemarkData lake_placemarks) 0 = Undefined
   \<and> featureName lake_feature = Inr ''Lake''
   \<and> name_lookup_spec lake_placemarks ''Lake'' = None
   \<and> fid lake_feature = Undefined
   \<and> map fid (loaded_features (snd (handleKmlUpload lake_placemarks [lake_feature] initial_state)))
       = [Str ''X'']"
proof -
  have pd: "placemarkData lake_placemarks = []"
    by (simp add: placemarkData_def lake_placemarks_def)
  have 1: "positional_id (placemarkData lake_placemarks) 0 = Undefined"
    by (simp add: pd positional_id_def)
  have 2: "featureName lake_feature = Inr ''Lake''"
    by (simp add: featureName_def js_or_def get_prop_def lake_feature_def trim_plain)
  have 3: "name_lookup_spec lake_placemarks ''Lake'' = None"
    by (simp add: name_lookup_spec_def lake_placemarks_def pm_id_text_def)
  have 4: "fid lake_feature = Undefined" by (simp add: lake_feature_def)
  have a: "assign_id [] (nameToIdMap []) 0 lake_feature = Inr (promote_id lake_feature)"
    by (simp add: assign_id_def resolve_id_def positional_id_def id_by_name_def 2 nameToIdMap_def)
  have p: "fid (promote_id lake_feature) = Str ''X''"
    by (simp add: promote_id_fid get_prop_def lake_feature_def)
  have 5: "map fid (loaded_features (snd (handleKmlUpload lake_placemarks [lake_feature] initial_state)))
       = [Str ''X'']"
    by (simp add: handleKmlUpload_def Let_def pd a loaded_features_def p)
  from 1 2 3 4 5 show ?thesis by blast
qed

lemma fallback_after_empty_read_example:
  "resolve_id (placemarkData twin_placemarks) (nameToIdMap (placemarkData twin_placemarks)) 2
      \<lparr>fid = Undefined, properties = Some [''Name'' \<mapsto> Str ''North '']\<rparr> = Inr (Str ''S1'')
   \<and> fid (store_id (Str ''S1'') \<lparr>fid = Undefined, properties = Some [''Name'' \<mapsto> Str ''North '']\<rparr>)
       = Str ''S1''
   \<and> assign_id (placemarkData twin_placemarks) (nameToIdMap (placemarkData twin_placemarks)) 3
      \<lparr>fid = Undefined, properties = Some [''name'' \<mapsto> Str ''West'']\<rparr>
       = Inr \<lparr>fid = Undefined, properties = Some [''name'' \<mapsto> Str ''West'']\<rparr>"
proof -
  let ?n = "\<lparr>fid = Undefined, properties = Some [''Name'' \<mapsto> Str ''North '']\<rparr>"
  let ?w = "\<lparr>fid = Undefined, properties = Some [''name'' \<mapsto> Str ''West'']\<rparr>"
  have pd: "placemarkData twin_placemarks =
      [\<lparr>pid = Str ''S0'', pname = ''North''\<rparr>, \<lparr>pid = Str ''S1'', pname = '' North ''\<rparr>]"
    by (simp add: placemarkData_def twin_placemarks_def)
  have pos: "\<not> truthy (positional_id (placemarkData twin_placemarks) 2)"
    "\<not> truthy (positional_id (placemarkData twin_placemarks) 3)"
    by (simp_all add: pd positional_id_def)
  have nn: "featureName ?n = Inr ''North''"
    by (simp add: featureName_def js_or_def get_prop_def trim_def isWhite_def)
  have nw: "featureName ?w = Inr ''West''"
    by (simp add: featureName_def js_or_def get_prop_def trim_plain)
  have ln: "name_lookup_spec twin_placemarks ''North'' = Some ''S1''"
    by (simp add: name_lookup_spec_def twin_placemarks_def pm_id_text_def pm_name_text_def trim_plain)
  have lw: "name_lookup_spec twin_placemarks ''West'' = None"
    by (simp add: name_lookup_spec_def twin_placemarks_def pm_id_text_def pm_name_text_def trim_plain)
  note N = fallback_after_empty_read[OF pos(1) nn]
  note W = fallback_after_empty_read[OF pos(2) nw]
  from N have a: "resolve_id (placemarkData twin_placemarks) (nameToIdMap (placemarkData twin_placemarks)) 2 ?n
      = Inr (Str ''S1'')"
    by (simp add: ln)
  from N ln have b: "fid (store_id (Str ''S1'') ?n) = Str ''S1''" by blast
  from W lw have "assign_id (placemarkData twin_placemarks) (nameToIdMap (placemarkData twin_placemarks)) 3 ?w
      = Inr (promote_id ?w)" by blast
  then have c: "assign_id (placemarkData twin_placemarks) (nameToIdMap (placemarkData twin_placemarks)) 3 ?w
      = Inr ?w"
    by (simp add: promote_id_def get_prop_def)
  from a b c show ?thesis by blast
qed

section \<open>C2: the positional identifier\<close>

lemma shifted_data:
  "placemarkData shifted_placemarks =
     [\<lparr>pid = Str ''A'', pname = ''b''\<rparr>, \<lparr>pid = Str ''B'', pname = ''c''\<rparr>]"
  by (simp add: placemarkData_def shifted_placemarks_def)

text \<open>
  C2 does not hold of the code. \<^verbatim>\<open>placemarkData\<close> keeps only the placemarks that have
  an identifier (line 200), so \<^verbatim>\<open>placemarkData[index]\<close> is the placemark of that
  position among the identified ones, not the placemark at the position of the feature,
  which the comment of line 213 announces. With a first placemark without identifier,
  followed by A and B, the three features get A, B and B: the second feature, whose
  placemark carries A, gets B. (Where every placemark has an identifier, position and
  identifier agree: \<open>positional_when_all_identified\<close>.)
\<close>

theorem filtered_placemarks_shift_ids:
  "map pm_id shifted_placemarks = [None, Some ''A'', Some ''B'']
   \<and> length shifted_features = length shifted_placemarks
   \<and> map fid (loaded_features (snd (handleKmlUpload shifted_placemarks shifted_features initial_state)))
       = [Str ''A'', Str ''B'', Str ''B'']"
proof -
  have 1: "map pm_id shifted_placemarks = [None, Some ''A'', Some ''B'']"
    by (simp add: shifted_placemarks_def)
  have 2: "length shifted_features = length shifted_placemarks"
    by (simp add: shifted_placemarks_def shifted_features_def)
  have 3: "map fid (loaded_features (snd (handleKmlUpload shifted_placemarks shifted_features initial_state)))
       = [Str ''A'', Str ''B'', Str ''B'']"
    by (simp add: handleKmlUpload_def Let_def shifted_data shifted_features_def nameToIdMap_def
        assign_id_def resolve_id_def positional_id_def id_by_name_def featureName_def js_or_def
        get_prop_def trim_plain store_id_def promote_id_def loaded_features_def)
  from 1 2 3 show ?thesis by blast
qed

section \<open>C1: the end-to-end scenario\<close>

lemma scenario_lines:
  "split_lines (trim scenario_csv) = [''id,revenue,cost'', ''S1,100,40'', ''S2,200,150'']"
  by (simp add: scenario_csv_def trim_def isWhite_def LF_def CR_def)

lemma scenario_table:
  "handleCsvUpload scenario_csv initial_state =
     (Msg_success ''CSV file loaded successfully'',
      \<lparr>kmlData = None,
       csvRows = [\<lparr>row_id = Str ''S1'', revenue = Fin 100, cost = Fin 40\<rparr>,
                  \<lparr>row_id = Str ''S2'', revenue = Fin 200, cost = Fin 150\<rparr>],
       selectedMetric = Revenue\<rparr>)"
  unfolding handleCsvUpload_def Let_def scenario_lines
  by (simp add: trim_def isWhite_def parse_row_def at_index_def Number_samples initial_state_def)

lemma scenario_loaded:
  "scenario_state scenario_placemarks scenario_features =
     \<lparr>kmlData = Some
        [\<lparr>fid = Str ''S2'',
          properties = Some [''name'' \<mapsto> Str ''North'', ''id'' \<mapsto> Str ''S2'', ''placemarkId'' \<mapsto> Str ''S2'']\<rparr>,
         \<lparr>fid = Str ''S1'',
          properties = Some [''name'' \<mapsto> Str ''South'', ''id'' \<mapsto> Str ''S1'', ''placemarkId'' \<mapsto> Str ''S1'']\<rparr>,
         \<lparr>fid = Str ''S1'',
          properties = Some [''name'' \<mapsto> Str ''North'', ''id'' \<mapsto> Str ''S1'', ''placemarkId'' \<mapsto> Str ''S1'']\<rparr>],
      csvRows = [\<lparr>row_id = Str ''S1'', revenue = Fin 100, cost = Fin 40\<rparr>,
                 \<lparr>row_id = Str ''S2'', revenue = Fin 200, cost = Fin 150\<rparr>],
      selectedMetric = Revenue\<rparr>"
  unfolding scenario_state_def scenario_table snd_conv
  by (simp add: handleKmlUpload_def Let_def scenario_data scenario_features_def nameToIdMap_def
      assign_id_def resolve_id_def positional_id_def id_by_name_def featureName_def js_or_def
      get_prop_def trim_plain store_id_def promote_id_def)

lemma anchors_100_200:
  "getColorForValue (Num (Fin 100)) (Num (Fin 100)) (Num (Fin 200)) = Rgb (Fin 237) (Fin 233) (Fin 254)"
  "getColorForValue (Num (Fin 200)) (Num (Fin 100)) (Num (Fin 200)) = Rgb (Fin 88) (Fin 28) (Fin 135)"
proof -
  show "getColorForValue (Num (Fin 100)) (Num (Fin 100)) (Num (Fin 200)) = Rgb (Fin 237) (Fin 233) (Fin 254)"
    by (rule gcfv_min) (simp_all add: is_double_numeral)
  show "getColorForValue (Num (Fin 200)) (Num (Fin 100)) (Num (Fin 200)) = Rgb (Fin 88) (Fin 28) (Fin 135)"
    using small_lt_dbl_limit[of 100] by (intro gcfv_max) (simp_all add: is_double_numeral)
qed

text \<open>
  C1 does not hold of the code. The range is 100 to 200, as claimed, but the filter of
  line 200 drops the first placemark, so the feature North takes S2, the identifier of
  South, and is drawn with the dark anchor, while South takes S1 and is drawn with the
  light anchor; the feature of the separate North placemark resolves to S1.
\<close>

theorem scenario_colours_swapped:
  "metricMin (scenario_state scenario_placemarks scenario_features) = Num (Fin 100)
   \<and> metricMax (scenario_state scenario_placemarks scenario_features) = Num (Fin 200)
   \<and> drawn (scenario_state scenario_placemarks scenario_features) =
       [(Str ''North'', Str ''S2'', Rgb (Fin 88) (Fin 28) (Fin 135), Rgb (Fin 88) (Fin 28) (Fin 135)),
        (Str ''South'', Str ''S1'', Rgb (Fin 237) (Fin 233) (Fin 254), Rgb (Fin 237) (Fin 233) (Fin 254)),
        (Str ''North'', Str ''S1'', Rgb (Fin 237) (Fin 233) (Fin 254), Rgb (Fin 237) (Fin 233) (Fin 254))]"
proof -
  have mn: "metricMin (scenario_state scenario_placemarks scenario_features) = Num (Fin 100)"
    unfolding scenario_loaded
    by (simp add: metricMin_def metricValues_def Math_min_def)
  have mx: "metricMax (scenario_state scenario_placemarks scenario_features) = Num (Fin 200)"
    unfolding scenario_loaded
    by (simp add: metricMax_def metricValues_def Math_max_def)
  have d: "drawn (scenario_state scenario_placemarks scenario_features) =
       [(Str ''North'', Str ''S2'', Rgb (Fin 88) (Fin 28) (Fin 135), Rgb (Fin 88) (Fin 28) (Fin 135)),
        (Str ''South'', Str ''S1'', Rgb (Fin 237) (Fin 233) (Fin 254), Rgb (Fin 237) (Fin 233) (Fin 254)),
        (Str ''North'', Str ''S1'', Rgb (Fin 237) (Fin 233) (Fin 254), Rgb (Fin 237) (Fin 233) (Fin 254))]"
    unfolding drawn_def style_def Let_def mn mx
    unfolding scenario_loaded
    by (simp add: loaded_features_def get_prop_def csvRow_def featureId_def js_or_def csvIdMap_def
        anchors_100_200)
  from mn mx d show ?thesis by blast
qed

text \<open>
  The same happens when the separate placemark yields no feature. The colours are the
  claimed ones, for instance, when that placemark comes before the other two and
  yields no feature.
\<close>

lemma scenario_without_third_feature:
  "drawn (scenario_state scenario_placemarks (take 2 scenario_features)) =
       [(Str ''North'', Str ''S2'', Rgb (Fin 88) (Fin 28) (Fin 135), Rgb (Fin 88) (Fin 28) (Fin 135)),
        (Str ''South'', Str ''S1'', Rgb (Fin 237) (Fin 233) (Fin 254), Rgb (Fin 237) (Fin 233) (Fin 254))]"
proof -
  have l: "scenario_state scenario_placemarks (take 2 scenario_features) =
     \<lparr>kmlData = Some
        [\<lparr>fid = Str ''S2'',
          properties = Some [''name'' \<mapsto> Str ''North'', ''id'' \<mapsto> Str ''S2'', ''placemarkId'' \<mapsto> Str ''S2'']\<rparr>,
         \<lparr>fid = Str ''S1'',
          properties = Some [''name'' \<mapsto> Str ''South'', ''id'' \<mapsto> Str ''S1'', ''placemarkId'' \<mapsto> Str ''S1'']\<rparr>],
      csvRows = [\<lparr>row_id = Str ''S1'', revenue = Fin 100, cost = Fin 40\<rparr>,
                 \<lparr>row_id = Str ''S2'', revenue = Fin 200, cost = Fin 150\<rparr>],
      selectedMetric = Revenue\<rparr>"
    unfolding scenario_state_def scenario_table snd_conv
    by (simp add: handleKmlUpload_def Let_def scenario_data scenario_features_def nameToIdMap_def
        assign_id_def resolve_id_def positional_id_def id_by_name_def featureName_def js_or_def
        get_prop_def trim_plain store_id_def promote_id_def)
  have mn: "metricMin (scenario_state scenario_placemarks (take 2 scenario_features)) = Num (Fin 100)"
    unfolding l by (simp add: metricMin_def metricValues_def Math_min_def)
  have mx: "metricMax (scenario_state scenario_placemarks (take 2 scenario_features)) = Num (Fin 200)"
    unfolding l by (simp add: metricMax_def metricValues_def Math_max_def)
  show ?thesis
    unfolding drawn_def style_def Let_def mn mx
    unfolding l
    by (simp add: loaded_features_def get_prop_def csvRow_def featureId_def js_or_def csvIdMap_def
        anchors_100_200)
qed

lemma scenario_holds_when_identified_first:
  "drawn (scenario_state (rotate 2 scenario_placemarks) (take 2 scenario_features)) =
       [(Str ''North'', Str ''S1'', Rgb (Fin 237) (Fin 233) (Fin 254), Rgb (Fin 237) (Fin 233) (Fin 254)),
        (Str ''South'', Str ''S2'', Rgb (Fin 88) (Fin 28) (Fin 135), Rgb (Fin 88) (Fin 28) (Fin 135))]"
proof -
  have r: "rotate 2 scenario_placemarks =
     [\<lparr>pm_id = Some ''S1'', pm_name = Some ''North''\<rparr>,
      \<lparr>pm_id = None, pm_name = Some ''North''\<rparr>,
      \<lparr>pm_id = Some ''S2'', pm_name = Some ''South''\<rparr>]"
    by (simp add: scenario_placemarks_def rotate_def rotate1_def numeral_2_eq_2)
  have pd: "placemarkData (rotate 2 scenario_placemarks) =
     [\<lparr>pid = Str ''S1'', pname = ''North''\<rparr>, \<lparr>pid = Str ''S2'', pname = ''South''\<rparr>]"
    unfolding r by (simp add: placemarkData_def)
  have l: "scenario_state (rotate 2 scenario_placemarks) (take 2 scenario_features) =
     \<lparr>kmlData = Some
        [\<lparr>fid = Str ''S1'',
          properties = Some [''name'' \<mapsto> Str ''North'', ''id'' \<mapsto> Str ''S1'', ''placemarkId'' \<mapsto> Str ''S1'']\<rparr>,
         \<lparr>fid = Str ''S2'',
          properties = Some [''name'' \<mapsto> Str ''South'', ''id'' \<mapsto> Str ''S2'', ''placemarkId'' \<mapsto> Str ''S2'']\<rparr>],
      csvRows = [\<lparr>row_id = Str ''S1'', revenue = Fin 100, cost = Fin 40\<rparr>,
                 \<lparr>row_id = Str ''S2'', revenue = Fin 200, cost = Fin 150\<rparr>],
      selectedMetric = Revenue\<rparr>"
    unfolding scenario_state_def scenario_table snd_conv
    by (simp add: handleKmlUpload_def Let_def pd scenario_features_def nameToIdMap_def
        assign_id_def resolve_id_def positional_id_def id_by_name_def featureName_def js_or_def
        get_prop_def trim_plain store_id_def promote_id_def)
  have mn: "metricMin (scenario_state (rotate 2 scenario_placemarks) (take 2 scenario_features)) = Num (Fin 100)"
    unfolding l by (simp add: metricMin_def metricValues_def Math_min_def)
  have mx: "metricMax (scenario_state (rotate 2 scenario_placemarks) (take 2 scenario_features)) = Num (Fin 200)"
    unfolding l by (simp add: metricMax_def metricValues_def Math_max_def)
  show ?thesis
    unfolding drawn_def style_def Let_def mn mx
    unfolding l
    by (simp add: loaded_features_def get_prop_def csvRow_def featureId_def js_or_def csvIdMap_def
        anchors_100_200)
qed

end
